(* ===== verification/Prelude.thy ===== *)
theory Prelude
  imports Main "HOL-Library.Word" "HOL-Library.Multiset"
begin

text \<open>
  Shared vocabulary of the text_craft development: the machine-integer types of the Rust
  source (\<open>u8\<close>, \<open>u32\<close>), Rust's arithmetic on them (the \<open>+\<close> of a debug build, which
  panics on overflow, and \<open>overflowing_sub\<close>), the panics of the program as a datatype,
  the occupied-slot view of a fixed array of \<open>Option\<close> values, and the generic lemmas on
  lists, options and words that the component theories share.
\<close>

named_theorems slot_simps "equations of the fixed-slot containers"
named_theorems inv_rules "preservation of the player invariant by the operations"
named_theorems word_range "facts that keep u8 and u32 values of the model inside their range"

type_synonym u8 = "8 word"
type_synonym u32 = "32 word"

text \<open>The panics the program can raise: arithmetic overflow of \<open>+=\<close> in a debug build and
  \<open>unwrap\<close> of \<open>None\<close>.\<close>

datatype panic = Add_overflow | Unwrap_none

text \<open>The I/O error of \<open>File::open\<close> on a file that does not exist; a file system is a
  file's content, or \<open>None\<close> when the file is missing.\<close>

datatype io_error = Not_found

text \<open>Rust's \<open>a + b\<close> on unsigned integers in a debug build: the sum, or a panic when it does
  not fit the width.\<close>

definition rust_add :: "'a::len word \<Rightarrow> 'a word \<Rightarrow> panic + 'a word" where
  "rust_add a b = (if unat a + unat b < 2 ^ LENGTH('a) then Inr (a + b) else Inl Add_overflow)"

text \<open>\<open>u8::overflowing_sub\<close>: the wrapped difference and whether it wrapped.\<close>

definition overflowing_sub :: "'a::len word \<Rightarrow> 'a word \<Rightarrow> 'a word \<times> bool" where
  "overflowing_sub a b = (a - b, a < b)"

text \<open>The occupied slots of an array of \<open>Option\<close> values, in slot order.\<close>

primrec somes :: "'a option list \<Rightarrow> 'a list" where
  "somes [] = []"
| "somes (x # xs) = (case x of None \<Rightarrow> somes xs | Some y \<Rightarrow> y # somes xs)"

text \<open>A slot array is packed when its occupied slots come first.\<close>

definition packed :: "'a option list \<Rightarrow> bool" where
  "packed xs \<longleftrightarrow> xs = map Some (somes xs) @ replicate (length xs - length (somes xs)) None"

subsection \<open>Words\<close>

lemma rust_add_Inr [word_range]:
  "rust_add a b = Inr c \<longleftrightarrow> unat a + unat b < 2 ^ LENGTH('a) \<and> c = a + (b :: 'a::len word)"
  by (auto simp: rust_add_def)

lemma rust_add_Inl [word_range]:
  "rust_add a b = Inl e \<longleftrightarrow> 2 ^ LENGTH('a) \<le> unat a + unat (b :: 'a::len word) \<and> e = Add_overflow"
  by (auto simp: rust_add_def)

lemma unat_add_no_wrap [word_range]:
  "unat a + unat b < 2 ^ LENGTH('a) \<Longrightarrow> unat (a + b :: 'a::len word) = unat a + unat b"
  by (simp add: unat_add_lem)

lemma unat_sub_no_wrap [word_range]:
  "b \<le> a \<Longrightarrow> unat (a - b :: 'a::len word) = unat a - unat b"
  by (simp add: unat_sub)

lemma unat_u8_lt [word_range]: "unat (x :: u8) < 256"
  using unsigned_less [of x] by simp

lemma unat_u32_lt [word_range]: "unat (x :: u32) < 4294967296"
  using unsigned_less [of x] by simp

lemma unat_ucast_u8_u32 [simp]: "unat (ucast (x :: u8) :: u32) = unat x"
  using unat_u8_lt [of x] by (simp add: unsigned_ucast_eq take_bit_nat_eq_self_iff)

lemma word_of_nat_unat [simp]: "word_of_nat (unat w) = (w :: 'a::len word)"
  by (simp add: of_nat_unat)

text \<open>Counting words through their unsigned value: the bridge from a distribution over
  \<open>u8\<close> draws to a count of natural numbers.\<close>

lemma card_word_unat:
  "card {w :: 'a::len word. P (unat w)} = card {n. n < 2 ^ LENGTH('a) \<and> P n}"
proof -
  have "unat ` {w :: 'a word. P (unat w)} = {n. n < 2 ^ LENGTH('a) \<and> P n}"
  proof (intro set_eqI iffI)
    fix n assume "n \<in> unat ` {w :: 'a word. P (unat w)}"
    then show "n \<in> {n. n < 2 ^ LENGTH('a) \<and> P n}" by auto
  next
    fix n assume n: "n \<in> {n. n < 2 ^ LENGTH('a) \<and> P n}"
    then have "unat (word_of_nat n :: 'a word) = n" by (simp add: unat_of_nat take_bit_nat_eq_self)
    with n show "n \<in> unat ` {w :: 'a word. P (unat w)}"
      by (metis (mono_tags, lifting) image_eqI mem_Collect_eq)
  qed
  moreover have "inj_on unat {w :: 'a word. P (unat w)}"
    by (simp add: inj_on_def word_unat_eq_iff)
  ultimately show ?thesis by (metis card_image)
qed

text \<open>Counting the members of an interval of naturals that satisfy a predicate.\<close>

lemma length_filter_upt: "length (filter P [m..<n]) = card {i. m \<le> i \<and> i < n \<and> P i}"
proof -
  have "set (filter P [m..<n]) = {i. m \<le> i \<and> i < n \<and> P i}"
    by auto
  moreover have "distinct (filter P [m..<n])"
    by simp
  ultimately show ?thesis
    by (metis distinct_card)
qed

lemma fold_preserves: "(\<And>x s. P s \<Longrightarrow> P (f x s)) \<Longrightarrow> P s \<Longrightarrow> P (fold f xs s)"
  by (induction xs arbitrary: s) simp_all

lemma length_filter_product:
  "length (filter (\<lambda>(a, b). P a \<and> Q b) (List.product xs ys)) = length (filter P xs) * length (filter Q ys)"
  by (induction xs) (simp_all add: filter_map comp_def case_prod_beta)

lemma length_filter_product_fst:
  "length (filter (\<lambda>(a, b). P a) (List.product xs ys)) = length (filter P xs) * length ys"
  using length_filter_product [of P "\<lambda>_. True" xs ys] by simp

subsection \<open>Occupied slots\<close>

lemma somes_append [simp]: "somes (xs @ ys) = somes xs @ somes ys"
  by (induction xs) (auto split: option.splits)

lemma somes_replicate_None [simp]: "somes (replicate n None) = []"
  by (induction n) auto

lemma somes_map_Some [simp]: "somes (map Some xs) = xs"
  by (induction xs) auto

lemma length_somes: "length (somes xs) \<le> length xs"
  by (induction xs) (auto split: option.splits)

lemma somes_all_None [simp]: "somes xs = [] \<longleftrightarrow> (\<forall>x \<in> set xs. x = None)"
  by (induction xs) (auto split: option.splits)

lemma set_somes: "set (somes xs) = {y. Some y \<in> set xs}"
  by (induction xs) (auto split: option.splits)

lemma somes_update_None_mset:
  "i < length xs \<Longrightarrow> xs ! i = Some y \<Longrightarrow> mset (somes (xs[i := None])) = mset (somes xs) - {#y#}"
proof (induction xs arbitrary: i)
  case Nil
  then show ?case by simp
next
  case (Cons x xs)
  show ?case
  proof (cases i)
    case 0
    with Cons.prems show ?thesis by simp
  next
    case (Suc j)
    with Cons.prems have "y \<in> set (somes xs)"
      by (auto simp: set_somes dest: nth_mem [of j xs])
    with Cons.prems Suc Cons.IH [of j] show ?thesis
      by (auto split: option.splits)
  qed
qed

lemma packed_replicate_None [simp]: "packed (replicate n None)"
  by (simp add: packed_def)

lemma packed_map_None [simp]: "packed (map (\<lambda>_. None) xs)"
  by (simp add: map_replicate_const)

lemma packed_map_Some [simp]: "packed (map Some ys)"
  by (simp add: packed_def)

lemma packed_map_Some_append [simp]:
  "packed (map Some ys @ replicate n None)"
  by (simp add: packed_def)

end
