(* ===== verification/Rust_Str.thy ===== *)
theory Rust_Str
  imports Prelude
begin

text \<open>
  The parts of Rust's standard library that text_craft calls on strings, with the
  semantics the standard library documents: \<open>str::trim\<close>, \<open>str::split\<close> on a character,
  \<open>BufRead::lines\<close>, \<open>str::starts_with\<close>, \<open>char::is_alphanumeric\<close>, \<open>u32\<close>/\<open>u8\<close>/\<open>i32\<close>
  \<open>FromStr\<close> and the decimal \<open>Display\<close> of an unsigned integer. A Rust string is modelled
  as a list of Unicode scalar values below 256 (Isabelle's \<open>char\<close> read as a code point of
  the Latin-1 block); the predicates below are exact on that block. These are library
  semantics, not code of the repository, and are not entries of the source map.
\<close>

subsection \<open>Characters\<close>

text \<open>\<open>char::is_whitespace\<close> (the Unicode White_Space property) restricted to code points
  below 256.\<close>

definition is_whitespace :: "char \<Rightarrow> bool" where
  "is_whitespace c \<longleftrightarrow> (let n = of_char c :: nat in (9 \<le> n \<and> n \<le> 13) \<or> n = 32 \<or> n = 133 \<or> n = 160)"

text \<open>\<open>char::is_alphanumeric\<close> (Alphabetic or Numeric) on code points below 256.\<close>

definition is_alphanumeric :: "char \<Rightarrow> bool" where
  "is_alphanumeric c \<longleftrightarrow> (let n = of_char c :: nat in
     (48 \<le> n \<and> n \<le> 57) \<or> (65 \<le> n \<and> n \<le> 90) \<or> (97 \<le> n \<and> n \<le> 122) \<or>
     n = 170 \<or> n = 178 \<or> n = 179 \<or> n = 181 \<or> n = 185 \<or> n = 186 \<or> (188 \<le> n \<and> n \<le> 190) \<or>
     (192 \<le> n \<and> n \<le> 214) \<or> (216 \<le> n \<and> n \<le> 246) \<or> (248 \<le> n \<and> n \<le> 255))"

definition is_ascii_digit :: "char \<Rightarrow> bool" where
  "is_ascii_digit c \<longleftrightarrow> (let n = of_char c :: nat in 48 \<le> n \<and> n \<le> 57)"

definition digit_value :: "char \<Rightarrow> nat" where
  "digit_value c = of_char c - 48"

definition digit_char :: "nat \<Rightarrow> char" where
  "digit_char d = char_of (48 + d)"

subsection \<open>Strings\<close>

text \<open>\<open>str::trim\<close>: leading and trailing white space removed.\<close>

definition trim :: "string \<Rightarrow> string" where
  "trim s = rev (dropWhile is_whitespace (rev (dropWhile is_whitespace s)))"

text \<open>\<open>str::split(c)\<close>: the pieces between the occurrences of \<open>c\<close>; never empty.\<close>

fun split_on :: "char \<Rightarrow> string \<Rightarrow> string list" where
  "split_on c [] = [[]]"
| "split_on c (x # xs) =
     (if x = c then [] # split_on c xs
      else (case split_on c xs of [] \<Rightarrow> [[x]] | w # ws \<Rightarrow> (x # w) # ws))"

text \<open>\<open>str::starts_with\<close>.\<close>

definition starts_with :: "string \<Rightarrow> string \<Rightarrow> bool" where
  "starts_with s p \<longleftrightarrow> take (length p) s = p"

text \<open>\<open>BufRead::lines\<close>: a line ends at a newline, which is removed together with a carriage
  return right before it; a last line without newline is kept when it is not empty. The
  first argument is the line read so far, reversed.\<close>

definition strip_cr :: "string \<Rightarrow> string" where
  "strip_cr l = (if l \<noteq> [] \<and> last l = CHR 0x0D then butlast l else l)"

fun lines_from :: "string \<Rightarrow> string \<Rightarrow> string list" where
  "lines_from cur [] = (if cur = [] then [] else [rev cur])"
| "lines_from cur (c # cs) =
     (if c = CHR 0x0A then strip_cr (rev cur) # lines_from [] cs else lines_from (c # cur) cs)"

definition rust_lines :: "string \<Rightarrow> string list" where
  "rust_lines s = lines_from [] s"

text \<open>What a writer puts into a file for a list of lines: each followed by a newline.\<close>

definition unlines :: "string list \<Rightarrow> string" where
  "unlines ls = concat (map (\<lambda>l. l @ [CHR 0x0A]) ls)"

subsection \<open>Numbers\<close>

text \<open>The value of a string of decimal digits, most significant first.\<close>

definition digits_value :: "string \<Rightarrow> nat" where
  "digits_value ds = foldl (\<lambda>acc c. acc * 10 + digit_value c) 0 ds"

text \<open>\<open>FromStr\<close> for an unsigned integer of \<open>w\<close> bits: an optional \<open>+\<close>, then one or more
  ASCII digits whose value fits the width; anything else is an error (\<open>None\<close>).\<close>

definition parse_uint :: "nat \<Rightarrow> string \<Rightarrow> nat option" where
  "parse_uint w s =
     (let ds = (case s of c # r \<Rightarrow> if c = CHR ''+'' then r else s | [] \<Rightarrow> [])
      in if ds \<noteq> [] \<and> list_all is_ascii_digit ds \<and> digits_value ds < 2 ^ w
         then Some (digits_value ds) else None)"

text \<open>\<open>FromStr\<close> for \<open>i32\<close>: an optional sign, then one or more ASCII digits, the value in
  \<open>[-2^31, 2^31)\<close>.\<close>

definition parse_i32 :: "string \<Rightarrow> int option" where
  "parse_i32 s =
     (let (neg, ds) = (case s of c # r \<Rightarrow>
                         if c = CHR ''+'' then (False, r) else if c = CHR ''-'' then (True, r)
                         else (False, s)
                       | [] \<Rightarrow> (False, []));
          v = (if neg then - int (digits_value ds) else int (digits_value ds))
      in if ds \<noteq> [] \<and> list_all is_ascii_digit ds \<and> - (2 ^ 31) \<le> v \<and> v < 2 ^ 31
         then Some v else None)"

text \<open>\<open>s.trim().parse::<i32>().unwrap_or(-1)\<close>, the way every menu of the program reads a
  choice.\<close>

definition read_choice :: "string \<Rightarrow> int" where
  "read_choice s = (case parse_i32 (trim s) of Some v \<Rightarrow> v | None \<Rightarrow> -1)"

text \<open>The decimal \<open>Display\<close> of an unsigned integer: no sign, no leading zeros.\<close>

fun show_nat :: "nat \<Rightarrow> string" where
  "show_nat n = (if n < 10 then [digit_char n] else show_nat (n div 10) @ [digit_char (n mod 10)])"

declare show_nat.simps [simp del]

subsection \<open>Lemmas\<close>

lemma of_char_digit_char: "d < 10 \<Longrightarrow> of_char (digit_char d) = 48 + d"
  by (simp add: digit_char_def)

lemma digit_char_props [simp]:
  "d < 10 \<Longrightarrow> is_ascii_digit (digit_char d)"
  "d < 10 \<Longrightarrow> digit_value (digit_char d) = d"
  "d < 10 \<Longrightarrow> \<not> is_whitespace (digit_char d)"
  "d < 10 \<Longrightarrow> digit_char d \<noteq> CHR ''+''"
  "d < 10 \<Longrightarrow> digit_char d \<noteq> CHR ''-''"
  by (auto simp: is_ascii_digit_def digit_value_def is_whitespace_def Let_def of_char_digit_char
      dest: arg_cong [where f = "of_char :: char \<Rightarrow> nat"])

lemma show_nat_nonempty [simp]: "show_nat n \<noteq> []"
  by (subst show_nat.simps) simp

lemma show_nat_chars: "c \<in> set (show_nat n) \<Longrightarrow> \<exists>d < 10. c = digit_char d"
proof (induction n rule: show_nat.induct)
  case (1 n)
  then show ?case
    by (cases "n < 10") (force simp: show_nat.simps [of n])+
qed

lemma show_nat_char_code:
  "c \<in> set (show_nat n) \<Longrightarrow> 48 \<le> (of_char c :: nat) \<and> (of_char c :: nat) \<le> 57"
  by (auto dest!: show_nat_chars simp: of_char_digit_char)

text \<open>The separators of the record files never occur in a number.\<close>

lemma show_nat_separators [simp]:
  "CHR '','' \<notin> set (show_nat n)" "CHR '';'' \<notin> set (show_nat n)" "CHR 0x0A \<notin> set (show_nat n)"
  by (fastforce dest: show_nat_char_code)+

lemma show_nat_digits: "list_all is_ascii_digit (show_nat n)"
  by (auto simp: list_all_iff dest: show_nat_chars)

lemma show_nat_no_ws: "c \<in> set (show_nat n) \<Longrightarrow> \<not> is_whitespace c"
  by (auto dest: show_nat_chars)

lemma show_nat_hd: "show_nat n = c # r \<Longrightarrow> c \<noteq> CHR ''+'' \<and> c \<noteq> CHR ''-''"
  by (metis list.set_intros(1) show_nat_chars digit_char_props(4,5))

lemma digits_value_snoc: "digits_value (ds @ [c]) = digits_value ds * 10 + digit_value c"
  by (simp add: digits_value_def)

lemma digits_value_show_nat [simp]: "digits_value (show_nat n) = n"
proof (induction n rule: show_nat.induct)
  case (1 n)
  then show ?case
    by (cases "n < 10") (simp_all add: show_nat.simps [of n] digits_value_snoc digits_value_def)
qed

lemma parse_uint_show_nat:
  assumes "n < 2 ^ w"
  shows "parse_uint w (show_nat n) = Some n"
proof (cases "show_nat n")
  case Nil
  then show ?thesis by simp
next
  case (Cons c r)
  with show_nat_hd have "c \<noteq> CHR ''+''" by blast
  with assms show ?thesis
    using show_nat_digits [of n] digits_value_show_nat [of n]
    by (simp add: parse_uint_def Let_def Cons)
qed

lemma dropWhile_ws_show_nat: "dropWhile is_whitespace (show_nat n) = show_nat n"
  using show_nat_no_ws [of "hd (show_nat n)" n] by (simp add: dropWhile_eq_self_iff)

lemma trim_all_whitespace: "list_all is_whitespace s \<Longrightarrow> trim s = []"
  by (auto simp: trim_def list_all_iff dropWhile_eq_Nil_conv dest: set_dropWhileD)

lemma trim_show_nat [simp]: "trim (show_nat n) = show_nat n"
proof -
  have "hd (rev (show_nat n)) \<in> set (show_nat n)"
    by (metis hd_in_set rev_is_Nil_conv set_rev show_nat_nonempty)
  then have "dropWhile is_whitespace (rev (show_nat n)) = rev (show_nat n)"
    using show_nat_no_ws by (simp add: dropWhile_eq_self_iff)
  then show ?thesis by (simp add: trim_def dropWhile_ws_show_nat)
qed

lemma parse_i32_show_nat:
  assumes "n < 2 ^ 31"
  shows "parse_i32 (show_nat n) = Some (int n)"
proof (cases "show_nat n")
  case Nil
  then show ?thesis by simp
next
  case (Cons c r)
  with show_nat_hd have "c \<noteq> CHR ''+''" and "c \<noteq> CHR ''-''" by blast+
  with assms show ?thesis
    using show_nat_digits [of n] digits_value_show_nat [of n]
    by (simp add: parse_i32_def Let_def Cons)
qed

lemma read_choice_show_nat: "n < 2 ^ 31 \<Longrightarrow> read_choice (show_nat n) = int n"
  by (simp add: read_choice_def parse_i32_show_nat)

lemma split_on_nonempty [simp]: "split_on c s \<noteq> []"
  by (induction c s rule: split_on.induct) (auto split: list.splits)

lemma split_on_no_sep: "c \<notin> set s \<Longrightarrow> split_on c s = [s]"
  by (induction c s rule: split_on.induct) auto

lemma split_on_sep_append:
  "c \<notin> set s \<Longrightarrow> split_on c (s @ c # t) = s # split_on c t"
proof (induction s)
  case Nil
  then show ?case by simp
next
  case (Cons x s)
  then show ?case by auto
qed

lemma split_on_append_sep_end:
  "c \<notin> set s \<Longrightarrow> split_on c (s @ [c]) = [s, []]"
  using split_on_sep_append [of c s "[]"] by simp

lemma lines_from_line:
  "CHR 0x0A \<notin> set l \<Longrightarrow> lines_from cur (l @ CHR 0x0A # rest) = strip_cr (rev cur @ l) # lines_from [] rest"
  by (induction l arbitrary: cur) auto

lemma strip_cr_no_cr: "l = [] \<or> last l \<noteq> CHR 0x0D \<Longrightarrow> strip_cr l = l"
  by (auto simp: strip_cr_def)

text \<open>Lines written with a newline after each are read back as they were, when none holds a
  newline or ends with a carriage return.\<close>

lemma rust_lines_unlines:
  assumes "\<forall>l \<in> set ls. CHR 0x0A \<notin> set l \<and> (l = [] \<or> last l \<noteq> CHR 0x0D)"
  shows "rust_lines (unlines ls) = ls"
  using assms
proof (induction ls)
  case Nil
  then show ?case by (simp add: rust_lines_def unlines_def)
next
  case (Cons l ls)
  then have "lines_from [] (unlines (l # ls)) = strip_cr l # lines_from [] (unlines ls)"
    by (simp add: unlines_def lines_from_line)
  with Cons show ?case by (simp add: rust_lines_def strip_cr_no_cr)
qed

lemma rust_lines_append_unlines:
  "\<forall>l \<in> set (ls @ ms). CHR 0x0A \<notin> set l \<and> (l = [] \<or> last l \<noteq> CHR 0x0D) \<Longrightarrow>
   rust_lines (unlines ls @ unlines ms) = ls @ ms"
  using rust_lines_unlines [of "ls @ ms"] by (simp add: unlines_def)

end
