(* ===== verification/Account.thy ===== *)
theory Account
  imports Rust_Str
begin

text \<open>
  The account component, \<open>src/account/mod.rs\<close>: the \<open>Account\<close> struct (name, balance and
  pickaxe level), \<open>new_account\<close>, the parser of one line of the account file
  (\<open>parse_account_string\<close>: three comma-separated fields, numbers read tolerantly with
  defaults 0 and 1), the reader of the whole file (\<open>parse_account_file\<close>, which skips bad
  lines) and the writer (\<open>update_account_file\<close>, one \<open>name,money,level\<close> line per
  account). A file is its content; writing returns the new content.
\<close>

record account =
  username :: string
  money :: u32
  pickaxe_level :: u8

definition new_account :: "string \<Rightarrow> account" where
  "new_account name = \<lparr>username = name, money = 100, pickaxe_level = 1\<rparr>"

definition parse_account_string :: "string \<Rightarrow> string + account" where
  "parse_account_string s =
     (let tokens = split_on (CHR '','') s in
      if length tokens \<noteq> 3 then Inl ''Invalid number of tokens''
      else Inr \<lparr>username = tokens ! 0,
                money = (case parse_uint 32 (trim (tokens ! 1)) of Some n \<Rightarrow> of_nat n | None \<Rightarrow> 0),
                pickaxe_level = (case parse_uint 8 (trim (tokens ! 2)) of Some n \<Rightarrow> of_nat n | None \<Rightarrow> 1)\<rparr>)"

text \<open>The loop of \<open>parse_account_file\<close> over the lines of the file: a line that parses is
  pushed, a line that does not is skipped.\<close>

primrec collect_accounts :: "string list \<Rightarrow> account list" where
  "collect_accounts [] = []"
| "collect_accounts (l # ls) =
     (case parse_account_string l of Inr a \<Rightarrow> a # collect_accounts ls | Inl _ \<Rightarrow> collect_accounts ls)"

definition parse_account_file :: "string option \<Rightarrow> io_error + account list" where
  "parse_account_file file =
     (case file of None \<Rightarrow> Inl Not_found | Some content \<Rightarrow> Inr (collect_accounts (rust_lines content)))"

text \<open>\<open>format!("{},{},{}\n", ...)\<close> without its newline, which \<open>unlines\<close> adds.\<close>

definition account_line :: "account \<Rightarrow> string" where
  "account_line a =
     username a @ '','' @ show_nat (unat (money a)) @ '','' @ show_nat (unat (pickaxe_level a))"

definition update_account_file :: "account list \<Rightarrow> string" where
  "update_account_file accounts = unlines (map account_line accounts)"

subsection \<open>Parsing a line\<close>

lemma parse_account_string_tokens:
  "split_on (CHR '','') s = [u, m, l] \<Longrightarrow>
   parse_account_string s = Inr \<lparr>username = u,
     money = (case parse_uint 32 (trim m) of Some n \<Rightarrow> of_nat n | None \<Rightarrow> 0),
     pickaxe_level = (case parse_uint 8 (trim l) of Some n \<Rightarrow> of_nat n | None \<Rightarrow> 1)\<rparr>"
  by (simp add: parse_account_string_def)

lemma parse_account_string_Inl:
  "parse_account_string s = Inl e \<longleftrightarrow> length (split_on (CHR '','') s) \<noteq> 3 \<and> e = ''Invalid number of tokens''"
  by (auto simp: parse_account_string_def Let_def)

lemma split_account_line:
  "CHR '','' \<notin> set (username a) \<Longrightarrow>
   split_on (CHR '','') (account_line a) =
     [username a, show_nat (unat (money a)), show_nat (unat (pickaxe_level a))]"
  by (simp add: account_line_def split_on_sep_append split_on_no_sep)

lemma account_line_no_newline:
  "CHR 0x0A \<notin> set (username a) \<Longrightarrow> CHR 0x0A \<notin> set (account_line a)"
  by (simp add: account_line_def)

lemma account_line_last: "last (account_line a) \<noteq> CHR 0x0D"
proof -
  have "last (account_line a) \<in> set (show_nat (unat (pickaxe_level a)))"
    by (simp add: account_line_def)
  then show ?thesis by (fastforce dest: show_nat_char_code)
qed

text \<open>Every account whose name has no comma is read back from its own line.\<close>

lemma account_line_roundtrip:
  assumes "CHR '','' \<notin> set (username a)"
  shows "parse_account_string (account_line a) = Inr a"
proof -
  have m: "parse_uint 32 (show_nat (unat (money a))) = Some (unat (money a))"
    by (rule parse_uint_show_nat) (use unsigned_less [of "money a"] in simp)
  have l: "parse_uint 8 (show_nat (unat (pickaxe_level a))) = Some (unat (pickaxe_level a))"
    by (rule parse_uint_show_nat) (use unsigned_less [of "pickaxe_level a"] in simp)
  show ?thesis
    using assms by (simp add: parse_account_string_tokens split_account_line m l)
qed

lemma collect_accounts_lines:
  "\<forall>a \<in> set accs. CHR '','' \<notin> set (username a) \<Longrightarrow> collect_accounts (map account_line accs) = accs"
  by (induction accs) (simp_all add: account_line_roundtrip)

text \<open>The account file the program writes is read back as the same accounts, in
  order, when no name holds a comma or a newline.\<close>

lemma account_file_roundtrip:
  assumes "\<forall>a \<in> set accs. CHR '','' \<notin> set (username a) \<and> CHR 0x0A \<notin> set (username a)"
  shows "parse_account_file (Some (update_account_file accs)) = Inr accs"
proof -
  have "rust_lines (update_account_file accs) = map account_line accs"
    unfolding update_account_file_def
    by (rule rust_lines_unlines) (use assms in \<open>auto simp: account_line_no_newline account_line_last\<close>)
  with assms show ?thesis by (simp add: parse_account_file_def collect_accounts_lines)
qed

lemma split_three_fields:
  "CHR '','' \<notin> set u \<Longrightarrow> CHR '','' \<notin> set m \<Longrightarrow> CHR '','' \<notin> set l \<Longrightarrow>
   split_on (CHR '','') (u @ CHR '','' # m @ CHR '','' # l) = [u, m, l]"
  by (simp add: split_on_sep_append split_on_no_sep)

text \<open>C30: the account reader is tolerant, as the specification requires, and lax. For
  every line: one without exactly three comma-separated fields is skipped; of one with
  three fields, the name is kept as it is, a money field that does not parse becomes 0, a
  level field that does not parse becomes 1, and a level field holding any \<open>u8\<close> number is
  taken as it is, also outside the range 1 to 3 the specification gives.\<close>

theorem account_reader_tolerant:
  assumes "CHR '','' \<notin> set u" and "CHR '','' \<notin> set m" and "CHR '','' \<notin> set l"
  shows "(length (split_on (CHR '','') s) \<noteq> 3 \<longrightarrow> collect_accounts (s # ls) = collect_accounts ls) \<and>
         (\<exists>a. collect_accounts ((u @ CHR '','' # m @ CHR '','' # l) # ls) = a # collect_accounts ls \<and>
              username a = u \<and>
              (parse_uint 32 (trim m) = None \<longrightarrow> money a = 0) \<and>
              (parse_uint 8 (trim l) = None \<longrightarrow> pickaxe_level a = 1) \<and>
              (\<forall>n < 256. trim l = show_nat n \<longrightarrow> unat (pickaxe_level a) = n))"
proof
  show "length (split_on (CHR '','') s) \<noteq> 3 \<longrightarrow> collect_accounts (s # ls) = collect_accounts ls"
    by (simp add: parse_account_string_def)
  have "\<And>n. n < 256 \<Longrightarrow> parse_uint 8 (show_nat n) = Some n"
    by (rule parse_uint_show_nat) simp
  then show "\<exists>a. collect_accounts ((u @ CHR '','' # m @ CHR '','' # l) # ls) = a # collect_accounts ls \<and>
              username a = u \<and>
              (parse_uint 32 (trim m) = None \<longrightarrow> money a = 0) \<and>
              (parse_uint 8 (trim l) = None \<longrightarrow> pickaxe_level a = 1) \<and>
              (\<forall>n < 256. trim l = show_nat n \<longrightarrow> unat (pickaxe_level a) = n)"
    using assms by (simp add: parse_account_string_tokens split_three_fields unat_of_nat)
qed

theorem account_reader_tolerant_witness:
  "collect_accounts [''bob,5'', ''dee,abc,200''] = [\<lparr>username = ''dee'', money = 0, pickaxe_level = 200\<rparr>]"
proof -
  have skip: "collect_accounts [''bob,5'', ''dee,abc,200''] = collect_accounts [''dee,abc,200'']"
    using account_reader_tolerant [of "''dee''" "''abc''" "''200''" "''bob,5''" "[''dee,abc,200'']"]
    by simp
  have none: "parse_uint 32 (trim ''abc'') = None"
    by (simp add: parse_uint_def trim_def is_whitespace_def is_ascii_digit_def)
  have n: "trim ''200'' = show_nat 200"
    by code_simp
  have c: "CHR '','' \<notin> set ''dee''" "CHR '','' \<notin> set ''abc''" "CHR '','' \<notin> set ''200''"
    by simp_all
  have line: "''dee,abc,200'' = ''dee'' @ CHR '','' # ''abc'' @ CHR '','' # ''200''" by simp
  have "\<exists>a. collect_accounts [''dee,abc,200''] = a # collect_accounts [] \<and> username a = ''dee'' \<and>
      (parse_uint 32 (trim ''abc'') = None \<longrightarrow> money a = 0) \<and>
      (parse_uint 8 (trim ''200'') = None \<longrightarrow> pickaxe_level a = 1) \<and>
      (\<forall>n < 256. trim ''200'' = show_nat n \<longrightarrow> unat (pickaxe_level a) = n)"
    unfolding line by (rule conjunct2 [OF account_reader_tolerant [OF c, of "[]" "[]"]])
  then obtain a where a: "collect_accounts [''dee,abc,200''] = [a]" and "username a = ''dee''"
    and m: "parse_uint 32 (trim ''abc'') = None \<longrightarrow> money a = 0"
    and lv: "\<forall>n < 256. trim ''200'' = show_nat n \<longrightarrow> unat (pickaxe_level a) = n"
    by auto
  from lv n have "unat (pickaxe_level a) = 200" by simp
  moreover from m none have "money a = 0" by simp
  moreover note \<open>username a = ''dee''\<close>
  ultimately have "a = \<lparr>username = ''dee'', money = 0, pickaxe_level = 200\<rparr>"
    by (metis account.surjective old.unit.exhaust word_of_nat_unat of_nat_numeral)
  with skip a show ?thesis by simp
qed

end
