(* ===== verification/Items.thy ===== *)
theory Items
  imports Rust_Str
begin

text \<open>
  The item catalogue of \<open>src/inventory/mod.rs\<close>: the enums \<open>Ore\<close> and \<open>Food\<close> with their
  display strings (\<open>to_string\<close>) and the parsers of those strings (\<open>from_string\<close>). The
  display string of an item is also its token in the inventory file, so the two
  functions form an encoder and a partial decoder. Both types are instances of the
  library class \<open>enum\<close>, so that a statement over all items is decided by evaluation.
\<close>

datatype ore = IronOre | GoldOre | Diamond

datatype food = Apple | Chicken | Beef

fun food_to_string :: "food \<Rightarrow> string" where
  "food_to_string Apple = ''Apple''"
| "food_to_string Chicken = ''Chicken''"
| "food_to_string Beef = ''Beef''"

definition food_from_string :: "string \<Rightarrow> food option" where
  "food_from_string s =
     (if s = ''Apple'' then Some Apple
      else if s = ''Chicken'' then Some Chicken
      else if s = ''Beef'' then Some Beef
      else None)"

fun ore_to_string :: "ore \<Rightarrow> string" where
  "ore_to_string IronOre = ''Iron Ore''"
| "ore_to_string GoldOre = ''Gold Ore''"
| "ore_to_string Diamond = ''Diamond''"

definition ore_from_string :: "string \<Rightarrow> ore option" where
  "ore_from_string s =
     (if s = ''Iron Ore'' then Some IronOre
      else if s = ''Gold Ore'' then Some GoldOre
      else if s = ''Diamond'' then Some Diamond
      else None)"

instantiation ore :: enum
begin

definition enum_ore :: "ore list" where
  "enum_ore = [IronOre, GoldOre, Diamond]"

definition enum_all_ore :: "(ore \<Rightarrow> bool) \<Rightarrow> bool" where
  "enum_all_ore P \<longleftrightarrow> P IronOre \<and> P GoldOre \<and> P Diamond"

definition enum_ex_ore :: "(ore \<Rightarrow> bool) \<Rightarrow> bool" where
  "enum_ex_ore P \<longleftrightarrow> P IronOre \<or> P GoldOre \<or> P Diamond"

instance
proof
  have univ: "(UNIV :: ore set) = {IronOre, GoldOre, Diamond}"
    by (metis (full_types) UNIV_eq_I insertCI ore.exhaust)
  show "(UNIV :: ore set) = set enum_class.enum"
    by (simp add: enum_ore_def univ)
  show "distinct (enum_class.enum :: ore list)"
    by (simp add: enum_ore_def)
  fix P :: "ore \<Rightarrow> bool"
  show "enum_class.enum_all P = Ball UNIV P"
    by (simp add: enum_all_ore_def univ)
  show "enum_class.enum_ex P = Bex UNIV P"
    by (simp add: enum_ex_ore_def univ)
qed

end

instantiation food :: enum
begin

definition enum_food :: "food list" where
  "enum_food = [Apple, Chicken, Beef]"

definition enum_all_food :: "(food \<Rightarrow> bool) \<Rightarrow> bool" where
  "enum_all_food P \<longleftrightarrow> P Apple \<and> P Chicken \<and> P Beef"

definition enum_ex_food :: "(food \<Rightarrow> bool) \<Rightarrow> bool" where
  "enum_ex_food P \<longleftrightarrow> P Apple \<or> P Chicken \<or> P Beef"

instance
proof
  have univ: "(UNIV :: food set) = {Apple, Chicken, Beef}"
    by (metis (full_types) UNIV_eq_I insertCI food.exhaust)
  show "(UNIV :: food set) = set enum_class.enum"
    by (simp add: enum_food_def univ)
  show "distinct (enum_class.enum :: food list)"
    by (simp add: enum_food_def)
  fix P :: "food \<Rightarrow> bool"
  show "enum_class.enum_all P = Ball UNIV P"
    by (simp add: enum_all_food_def univ)
  show "enum_class.enum_ex P = Bex UNIV P"
    by (simp add: enum_ex_food_def univ)
qed

end

subsection \<open>Tokens\<close>

lemma food_from_string_Some: "food_from_string s = Some f \<longleftrightarrow> s = food_to_string f"
  by (cases f) (auto simp: food_from_string_def)

lemma ore_from_string_Some: "ore_from_string s = Some x \<longleftrightarrow> s = ore_to_string x"
  by (cases x) (auto simp: ore_from_string_def)

lemma ore_from_to [simp]: "ore_from_string (ore_to_string x) = Some x"
  by (simp add: ore_from_string_Some)

lemma food_from_to [simp]: "food_from_string (food_to_string f) = Some f"
  by (simp add: food_from_string_Some)

text \<open>The food and ore tokens are disjoint, so an ore token never parses as food.\<close>

lemma food_from_ore_string [simp]: "food_from_string (ore_to_string x) = None"
  by (cases x) (simp_all add: food_from_string_def)

lemma ore_token_chars: "c \<in> set (ore_to_string x) \<Longrightarrow> c \<noteq> CHR '';'' \<and> c \<noteq> CHR 0x0A"
  by (cases x) auto

lemma ore_to_string_inj: "ore_to_string x = ore_to_string y \<longleftrightarrow> x = y"
  by (metis ore_from_to option.inject)

end
