(* ===== verification/Inventory.thy ===== *)
theory Inventory
  imports Items
begin

text \<open>
  The inventory component, \<open>src/inventory/mod.rs\<close>: the \<open>Inventory\<close> struct (20 ore slots
  and 6 food slots, each an \<open>Option\<close>), \<open>create_empty\<close>, the first-free-slot insertions
  \<open>push_food\<close> and \<open>push_ore\<close> (one loop, \<open>push_slot\<close>, shared by both), the listings
  \<open>print_ores\<close>/\<open>print_food\<close> as the lines they print, the parser of one line of the
  inventory file, the prefix search of that file by user name, and the line the writer
  emits for one player (its ore tokens only). Rust's fixed arrays are lists whose length
  the invariant \<open>inv_wf\<close> fixes.
\<close>

record inventory =
  ores :: "ore option list"
  foods :: "food option list"

definition create_empty :: inventory where
  "create_empty = \<lparr>ores = replicate 20 None, foods = replicate 6 None\<rparr>"

text \<open>The loop of \<open>push_food\<close>/\<open>push_ore\<close>: the first empty slot receives the item and the
  loop breaks; with no empty slot nothing changes.\<close>

fun push_slot :: "'a option list \<Rightarrow> 'a \<Rightarrow> 'a option list" where
  "push_slot [] x = []"
| "push_slot (s # ss) x = (if s = None then Some x # ss else s # push_slot ss x)"

definition push_food :: "inventory \<Rightarrow> food \<Rightarrow> inventory" where
  "push_food iv f = iv\<lparr>foods := push_slot (foods iv) f\<rparr>"

definition push_ore :: "inventory \<Rightarrow> ore \<Rightarrow> inventory" where
  "push_ore iv x = iv\<lparr>ores := push_slot (ores iv) x\<rparr>"

text \<open>\<open>print_ores\<close> and \<open>print_food\<close>: one line \<open>"{i+1}. {name}"\<close> per slot.\<close>

definition slot_lines :: "('a \<Rightarrow> string) \<Rightarrow> 'a option list \<Rightarrow> string list" where
  "slot_lines name slots =
     map (\<lambda>(i, s). show_nat (i + 1) @ ''. '' @ (case s of Some x \<Rightarrow> name x | None \<Rightarrow> ''Empty''))
       (enumerate 0 slots)"

definition print_ores :: "inventory \<Rightarrow> string list" where
  "print_ores iv = slot_lines ore_to_string (ores iv)"

definition print_food :: "inventory \<Rightarrow> string list" where
  "print_food iv = slot_lines food_to_string (foods iv)"

text \<open>\<open>parse_inventory_string\<close>: every \<open>;\<close>-separated token that names a food is pushed as
  food, else one that names an ore is pushed as ore, else it is ignored. The function
  returns \<open>Result\<close> but never fails.\<close>

definition parse_token :: "inventory \<Rightarrow> string \<Rightarrow> inventory" where
  "parse_token iv tok =
     (case food_from_string tok of
        Some f \<Rightarrow> push_food iv f
      | None \<Rightarrow> (case ore_from_string tok of Some x \<Rightarrow> push_ore iv x | None \<Rightarrow> iv))"

definition parse_inventory_string :: "string \<Rightarrow> string + inventory" where
  "parse_inventory_string s = Inr (foldl parse_token create_empty (split_on (CHR '';'') s))"

text \<open>\<open>search_inventory_file\<close>: the first line that starts with the user name (a prefix
  test, not a test of the first field) and parses gives the inventory; with none, the
  empty inventory; a missing file is an I/O error.\<close>

fun search_lines :: "string list \<Rightarrow> string \<Rightarrow> inventory" where
  "search_lines [] name = create_empty"
| "search_lines (l # ls) name =
     (if \<not> starts_with l name then search_lines ls name
      else (case parse_inventory_string l of Inr iv \<Rightarrow> iv | Inl _ \<Rightarrow> search_lines ls name))"

definition search_inventory_file :: "string option \<Rightarrow> string \<Rightarrow> io_error + inventory" where
  "search_inventory_file file name =
     (case file of None \<Rightarrow> Inl Not_found | Some content \<Rightarrow> Inr (search_lines (rust_lines content) name))"

text \<open>The body of \<open>update_inventory_file\<close> for one player: the name, \<open>;\<close>, then each
  occupied ore slot as its token followed by \<open>;\<close>. Foods are not written.\<close>

primrec ore_tokens :: "ore option list \<Rightarrow> string" where
  "ore_tokens [] = []"
| "ore_tokens (s # ss) = (case s of Some x \<Rightarrow> ore_to_string x @ '';'' | None \<Rightarrow> []) @ ore_tokens ss"

definition inventory_line :: "string \<Rightarrow> inventory \<Rightarrow> string" where
  "inventory_line name iv = name @ '';'' @ ore_tokens (ores iv)"

definition inv_wf :: "inventory \<Rightarrow> bool" where
  "inv_wf iv \<longleftrightarrow> length (ores iv) = 20 \<and> length (foods iv) = 6"

subsection \<open>The slot loop\<close>

lemma length_push_slot [simp]: "length (push_slot xs x) = length xs"
  by (induction xs) auto

lemma push_slot_full: "None \<notin> set xs \<Longrightarrow> push_slot xs x = xs"
proof (induction xs)
  case (Cons s ss)
  from Cons.prems have "s \<noteq> None" by (metis list.set_intros(1))
  moreover from Cons have "push_slot ss x = ss" by simp
  ultimately show ?case by simp
qed simp

lemma push_slot_somes_mset:
  "None \<in> set xs \<Longrightarrow> mset (somes (push_slot xs x)) = add_mset x (mset (somes xs))"
  by (induction xs) (auto split: option.splits)

text \<open>C12: \<open>push_slot\<close> puts the item into the first empty slot and changes no other
  slot.\<close>

theorem push_slot_first_free:
  "i < length xs \<Longrightarrow> xs ! i = None \<Longrightarrow> \<forall>j < i. xs ! j \<noteq> None \<Longrightarrow> push_slot xs x = xs[i := Some x]"
proof (induction xs arbitrary: i)
  case Nil
  then show ?case by simp
next
  case (Cons s ss)
  show ?case
  proof (cases i)
    case 0
    with Cons.prems show ?thesis by simp
  next
    case (Suc k)
    with Cons.prems have "s \<noteq> None" by auto
    moreover from Cons.prems Suc have "push_slot ss x = ss[k := Some x]"
      by (intro Cons.IH) auto
    ultimately show ?thesis by (simp add: Suc)
  qed
qed

theorem push_slot_first_free_witness:
  "push_slot [Some IronOre, None, Some GoldOre, None] Diamond = [Some IronOre, Some Diamond, Some GoldOre, None]"
  using push_slot_first_free [of 1 "[Some IronOre, None, Some GoldOre, None]" Diamond] by simp

lemma push_slot_packed [slot_simps]:
  "push_slot (map Some ys @ None # replicate k None) x = map Some (ys @ [x]) @ replicate k None"
  by (induction ys) auto

lemma push_slot_packed_full [slot_simps]: "push_slot (map Some ys) x = map Some ys"
  by (rule push_slot_full) auto

lemma packed_push_slot: "packed xs \<Longrightarrow> packed (push_slot xs x)"
proof -
  assume p: "packed xs"
  define ys k where "ys = somes xs" and "k = length xs - length (somes xs)"
  with p have xs: "xs = map Some ys @ replicate k None" by (simp add: packed_def)
  show ?thesis
  proof (cases k)
    case 0
    with xs show ?thesis by (simp add: push_slot_packed_full)
  next
    case (Suc k')
    with xs show ?thesis by (simp add: push_slot_packed del: map_append)
  qed
qed

subsection \<open>Inventory operations\<close>

text \<open>C13: inserting into a full container is a silent no-op, for ores and for food.\<close>

theorem push_into_full:
  "(None \<notin> set (ores iv) \<longrightarrow> push_ore iv x = iv) \<and> (None \<notin> set (foods iv) \<longrightarrow> push_food iv f = iv)"
  by (simp add: push_ore_def push_food_def push_slot_full)

theorem push_into_full_witness:
  "push_ore \<lparr>ores = replicate 20 (Some GoldOre), foods = replicate 6 (Some Apple)\<rparr> Diamond =
     \<lparr>ores = replicate 20 (Some GoldOre), foods = replicate 6 (Some Apple)\<rparr> \<and>
   push_food \<lparr>ores = replicate 20 (Some GoldOre), foods = replicate 6 (Some Apple)\<rparr> Beef =
     \<lparr>ores = replicate 20 (Some GoldOre), foods = replicate 6 (Some Apple)\<rparr>"
  using push_into_full [of "\<lparr>ores = replicate 20 (Some GoldOre), foods = replicate 6 (Some Apple)\<rparr>" Diamond Beef]
  by simp

lemma inv_wf_create_empty [simp]: "inv_wf create_empty"
  by (simp add: inv_wf_def create_empty_def)

lemma inv_wf_push [simp]:
  "inv_wf (push_food iv f) \<longleftrightarrow> inv_wf iv" "inv_wf (push_ore iv x) \<longleftrightarrow> inv_wf iv"
  by (simp_all add: inv_wf_def push_food_def push_ore_def)

lemma inv_wf_parse_token [simp]: "inv_wf (parse_token iv tok) \<longleftrightarrow> inv_wf iv"
  by (simp add: parse_token_def split: option.splits)

lemma inv_wf_foldl_parse_token: "inv_wf (foldl parse_token iv toks) \<longleftrightarrow> inv_wf iv"
  by (induction toks arbitrary: iv) simp_all

lemma inv_wf_search_lines: "inv_wf (search_lines ls name)"
  by (induction ls) (auto simp: parse_inventory_string_def inv_wf_foldl_parse_token split: sum.splits)

subsection \<open>The inventory line\<close>

lemma ore_tokens_shape: "ore_tokens os = [] \<or> last (ore_tokens os) = CHR '';''"
  by (induction os) (auto split: option.splits)

lemma inventory_line_last: "last (inventory_line name iv) = CHR '';''"
  using ore_tokens_shape [of "ores iv"] by (auto simp: inventory_line_def)

lemma inventory_line_no_newline:
  "CHR 0x0A \<notin> set name \<Longrightarrow> CHR 0x0A \<notin> set (inventory_line name iv)"
proof -
  have "CHR 0x0A \<notin> set (ore_tokens os)" for os
    by (induction os) (auto split: option.splits dest: ore_token_chars)
  then show "CHR 0x0A \<notin> set name \<Longrightarrow> CHR 0x0A \<notin> set (inventory_line name iv)"
    by (simp add: inventory_line_def)
qed

lemma split_ore_tokens:
  "split_on (CHR '';'') (ore_tokens os) = map ore_to_string (somes os) @ [[]]"
proof (induction os)
  case Nil
  then show ?case by simp
next
  case (Cons s os)
  have nsep: "CHR '';'' \<notin> set (ore_to_string x)" for x
    using ore_token_chars by blast
  from Cons nsep show ?case
    by (simp add: split_on_sep_append split: option.splits)
qed

lemma parse_token_empty [simp]: "parse_token iv [] = iv"
  by (simp add: parse_token_def food_from_string_def ore_from_string_def)

lemma foldl_parse_ore_tokens:
  "foldl parse_token iv (map ore_to_string xs) = iv\<lparr>ores := foldl push_slot (ores iv) xs\<rparr>"
  by (induction xs arbitrary: iv) (simp_all add: parse_token_def push_ore_def)

lemma foldl_push_slot_packed:
  "foldl push_slot (map Some ys @ replicate k None) xs =
   map Some (ys @ take k xs) @ replicate (k - length xs) None"
proof (induction xs arbitrary: ys k)
  case Nil
  then show ?case by simp
next
  case (Cons x xs)
  show ?case
  proof (cases k)
    case 0
    have "foldl push_slot (map Some ys) xs = map Some ys"
      by (induction xs) (simp_all add: push_slot_packed_full)
    with 0 show ?thesis by (simp add: push_slot_packed_full)
  next
    case (Suc k')
    with Cons.IH [of "ys @ [x]" k'] show ?thesis
      by (simp add: push_slot_packed del: map_append)
  qed
qed

lemma ores_reloaded:
  "length xs \<le> 20 \<Longrightarrow>
   foldl push_slot (replicate 20 None) xs = map Some xs @ replicate (20 - length xs) None"
  using foldl_push_slot_packed [of "[]" 20 xs] by simp

text \<open>A player's inventory line is read back as the same ores, packed to the front of
  the 20 slots in their slot order, with no food, when the name is not itself an item
  token and holds no separator.\<close>

lemma inventory_line_roundtrip:
  assumes "inv_wf iv" and "CHR '';'' \<notin> set name"
    and "food_from_string name = None" and "ore_from_string name = None"
  shows "parse_inventory_string (inventory_line name iv) =
    Inr \<lparr>ores = map Some (somes (ores iv)) @ replicate (20 - length (somes (ores iv))) None,
         foods = replicate 6 None\<rparr>"
proof -
  have len: "length (somes (ores iv)) \<le> 20"
    using assms(1) length_somes [of "ores iv"] by (simp add: inv_wf_def)
  have split: "split_on (CHR '';'') (inventory_line name iv) =
      name # map ore_to_string (somes (ores iv)) @ [[]]"
    using assms(2) by (simp add: inventory_line_def split_on_sep_append split_ore_tokens)
  have name: "parse_token create_empty name = create_empty"
    using assms(3,4) by (simp add: parse_token_def)
  have "parse_inventory_string (inventory_line name iv) =
      Inr (create_empty\<lparr>ores := foldl push_slot (ores create_empty) (somes (ores iv))\<rparr>)"
    by (simp add: parse_inventory_string_def split name foldl_parse_ore_tokens)
  with len show ?thesis
    by (simp add: create_empty_def ores_reloaded)
qed

text \<open>C19: a player whose name is an ore token gains that ore on every reload: the name
  heads the inventory line, and the parser takes it for an ore.\<close>

theorem item_name_adds_ore:
  "parse_inventory_string (inventory_line (ore_to_string x) iv) =
    Inr \<lparr>ores = map Some (take 20 (x # somes (ores iv))) @ replicate (19 - length (somes (ores iv))) None,
         foods = replicate 6 None\<rparr>"
proof -
  have "CHR '';'' \<notin> set (ore_to_string x)"
    using ore_token_chars by blast
  then have split: "split_on (CHR '';'') (inventory_line (ore_to_string x) iv) =
      map ore_to_string (x # somes (ores iv)) @ [[]]"
    by (simp add: inventory_line_def split_on_sep_append split_ore_tokens)
  have "parse_inventory_string (inventory_line (ore_to_string x) iv) =
      Inr (create_empty\<lparr>ores := foldl push_slot (ores create_empty) (x # somes (ores iv))\<rparr>)"
    unfolding parse_inventory_string_def split foldl_append foldl_parse_ore_tokens by simp
  then show ?thesis
    using foldl_push_slot_packed [of "[]" 20 "x # somes (ores iv)"] by (simp add: create_empty_def)
qed

text \<open>C14: the round trip the specification states for the inventory record: the ores read
  back from a player's line are the same multiset of ore kinds (positions are not kept),
  in a well-formed inventory, when the name is not an item token and holds no separator.\<close>

corollary inventory_line_mset:
  assumes "inv_wf iv" and "CHR '';'' \<notin> set name"
    and "food_from_string name = None" and "ore_from_string name = None"
  shows "\<exists>iv'. parse_inventory_string (inventory_line name iv) = Inr iv' \<and> inv_wf iv' \<and>
               mset (somes (ores iv')) = mset (somes (ores iv))"
proof -
  have "length (somes (ores iv)) \<le> 20"
    using assms(1) length_somes [of "ores iv"] by (simp add: inv_wf_def)
  then show ?thesis
    using inventory_line_roundtrip [OF assms] by (simp add: inv_wf_def somes_append)
qed

theorem inventory_line_mset_witness:
  "\<exists>iv'. parse_inventory_string (inventory_line ''alice''
      \<lparr>ores = [None, Some Diamond, None, Some IronOre] @ replicate 16 None, foods = replicate 6 (Some Beef)\<rparr>) = Inr iv' \<and>
    inv_wf iv' \<and> mset (somes (ores iv')) = {#Diamond, IronOre#}"
  using inventory_line_mset [of "\<lparr>ores = [None, Some Diamond, None, Some IronOre] @ replicate 16 None,
      foods = replicate 6 (Some Beef)\<rparr>" "''alice''"]
  by (simp add: inv_wf_def food_from_string_def ore_from_string_def numeral_eq_Suc)

end
