(* ===== verification/Player.thy ===== *)
theory Player
  imports Account Inventory
begin

text \<open>
  The player component, \<open>src/player/mod.rs\<close>: a \<open>Player\<close> owns one account and one
  inventory and has a transient health and mining depth (both \<open>u8\<close>). Every \<open>&mut self\<close>
  method is a function from the player to the updated player; a method whose \<open>+=\<close> can
  overflow returns \<open>panic + player\<close>, the panic of a debug build. \<open>spend\<close> returns the
  \<open>Err\<close> message of the source. The random draws of \<open>mine_ore\<close> are an argument: \<open>roll i\<close>
  is the pair (\<open>rand::random::<bool>()\<close>, \<open>gen_range(1..=100)\<close>) of iteration \<open>i\<close> of the
  loop \<open>for _ in 1..3\<close>. The comparison traits of \<open>Player\<close> are modelled as the functions
  \<open>player_eq\<close> and \<open>player_cmp\<close>.
\<close>

record player =
  account :: account
  inventory :: inventory
  health :: u8
  depth :: u8

datatype cmp_ordering = Less | Equal | Greater

text \<open>\<open>Ord::cmp\<close> on \<open>u32\<close>.\<close>

definition cmp_u32 :: "u32 \<Rightarrow> u32 \<Rightarrow> cmp_ordering" where
  "cmp_u32 a b = (if a < b then Less else if a = b then Equal else Greater)"

definition player_eq :: "player \<Rightarrow> player \<Rightarrow> bool" where
  "player_eq a b \<longleftrightarrow> username (account a) = username (account b)"

definition player_cmp :: "player \<Rightarrow> player \<Rightarrow> cmp_ordering" where
  "player_cmp a b = cmp_u32 (money (account a)) (money (account b))"

definition spend :: "player \<Rightarrow> u32 \<Rightarrow> string + player" where
  "spend p amount =
     (if amount \<le> money (account p)
      then Inr (p\<lparr>account := (account p)\<lparr>money := money (account p) - amount\<rparr>\<rparr>)
      else Inl ''Error: Not enough money!'')"

definition take_damage :: "player \<Rightarrow> u8 \<Rightarrow> player" where
  "take_damage p damage =
     (let (new_health, overflowed) = overflowing_sub (health p) damage
      in if overflowed then p\<lparr>health := 0\<rparr> else p\<lparr>health := new_health\<rparr>)"

definition heal :: "player \<Rightarrow> u8 \<Rightarrow> panic + player" where
  "heal p amount =
     (case rust_add (health p) amount of
        Inl e \<Rightarrow> Inl e
      | Inr h \<Rightarrow> Inr (if 100 < h then p\<lparr>health := 100\<rparr> else p\<lparr>health := h\<rparr>))"

definition is_alive :: "player \<Rightarrow> bool" where
  "is_alive p \<longleftrightarrow> 0 < health p"

definition new_player :: "inventory \<Rightarrow> account \<Rightarrow> player" where
  "new_player iv a = \<lparr>account = a, inventory = iv, health = 100, depth = 1\<rparr>"

definition stop_mining :: "player \<Rightarrow> player" where
  "stop_mining p = p\<lparr>depth := 1\<rparr>"

definition go_deeper :: "player \<Rightarrow> panic + player" where
  "go_deeper p = (case rust_add (depth p) 1 of Inl e \<Rightarrow> Inl e | Inr d \<Rightarrow> Inr (p\<lparr>depth := d\<rparr>))"

text \<open>The free function \<open>mine\<close>: one draw in \<open>[1, 100]\<close> against the two thresholds.\<close>

definition mine :: "u8 \<Rightarrow> u8 \<Rightarrow> u8 \<Rightarrow> ore" where
  "mine iron_chance gold_chance random_num =
     (if random_num < iron_chance then IronOre
      else if random_num < iron_chance + gold_chance then GoldOre
      else Diamond)"

text \<open>The \<open>match\<close> on the pickaxe level in \<open>mine_ore\<close>.\<close>

definition ore_chances :: "u8 \<Rightarrow> u8 \<times> u8" where
  "ore_chances level = (if level = 3 then (60, 40) else if level = 2 then (54, 36) else (57, 28))"

definition mine_ore :: "player \<Rightarrow> (nat \<Rightarrow> bool \<times> u8) \<Rightarrow> player" where
  "mine_ore p roll =
     (let (iron_chance, gold_chance) = ore_chances (pickaxe_level (account p))
      in fold (\<lambda>i q. if fst (roll i)
                      then q\<lparr>inventory := push_ore (inventory q) (mine iron_chance gold_chance (snd (roll i)))\<rparr>
                      else q) [1..<3] p)"

definition can_eat :: "player \<Rightarrow> int \<Rightarrow> bool" where
  "can_eat p index =
     (if \<not> (1 \<le> index \<and> index \<le> 6) then False
      else (case foods (inventory p) ! nat (index - 1) of Some _ \<Rightarrow> True | None \<Rightarrow> False))"

definition eat :: "player \<Rightarrow> int \<Rightarrow> panic + player" where
  "eat p index =
     (if \<not> can_eat p index then Inr p
      else (let i = nat (index - 1) in
            case foods (inventory p) ! i of
              None \<Rightarrow> Inl Unwrap_none
            | Some f \<Rightarrow>
                (case (case f of Apple \<Rightarrow> heal p 10 | Chicken \<Rightarrow> heal p 30 | Beef \<Rightarrow> heal p 40) of
                   Inl e \<Rightarrow> Inl e
                 | Inr q \<Rightarrow> Inr (q\<lparr>inventory := (inventory q)\<lparr>foods := (foods (inventory q))[i := None]\<rparr>\<rparr>))))"

definition purge_inventory :: "player \<Rightarrow> player" where
  "purge_inventory p = p\<lparr>inventory := (inventory p)\<lparr>ores := map (\<lambda>_. None) (ores (inventory p))\<rparr>\<rparr>"

definition is_pickaxe_maxed :: "player \<Rightarrow> bool" where
  "is_pickaxe_maxed p \<longleftrightarrow> 3 \<le> pickaxe_level (account p)"

definition upgrade_pickaxe_cost :: "player \<Rightarrow> u32" where
  "upgrade_pickaxe_cost p =
     (let pickaxe_level = ucast (pickaxe_level (account p)) :: u32;
          base_cost = 100; cost_per_level = 200
      in pickaxe_level * cost_per_level + base_cost)"

definition upgrade_pickaxe :: "player \<Rightarrow> player" where
  "upgrade_pickaxe p =
     (if pickaxe_level (account p) < 3
      then p\<lparr>account := (account p)\<lparr>pickaxe_level := pickaxe_level (account p) + 1\<rparr>\<rparr>
      else p)"

text \<open>How much each food heals, as the \<open>match\<close> of \<open>eat\<close> has it.\<close>

definition food_heal :: "food \<Rightarrow> u8" where
  "food_heal f = (case f of Apple \<Rightarrow> 10 | Chicken \<Rightarrow> 30 | Beef \<Rightarrow> 40)"

text \<open>The uniform draw \<open>gen_range(1..=100)\<close> as the list of its outcomes, and the number of
  outcomes for which \<open>mine\<close> yields a given ore at a given pickaxe level: that number in
  percent is the probability of the ore.\<close>

definition draws :: "u8 list" where
  "draws = map of_nat [1..<101]"

definition ore_count :: "u8 \<Rightarrow> ore \<Rightarrow> nat" where
  "ore_count level x =
     (let (iron_chance, gold_chance) = ore_chances level
      in length (filter (\<lambda>r. mine iron_chance gold_chance r = x) draws))"

text \<open>The ores one call of \<open>mine_ore\<close> digs, in order, before they are pushed.\<close>

definition mined_ores :: "player \<Rightarrow> (nat \<Rightarrow> bool \<times> u8) \<Rightarrow> ore list" where
  "mined_ores p roll =
     (let (iron_chance, gold_chance) = ore_chances (pickaxe_level (account p))
      in map (\<lambda>i. mine iron_chance gold_chance (snd (roll i))) (filter (\<lambda>i. fst (roll i)) [1..<3]))"

text \<open>The invariant every reachable player keeps: fixed array sizes, ores packed to the
  front (only \<open>push_ore\<close> and \<open>purge_inventory\<close> write them), health at most 100 and depth
  at least 1.\<close>

definition player_inv :: "player \<Rightarrow> bool" where
  "player_inv p \<longleftrightarrow> inv_wf (inventory p) \<and> packed (ores (inventory p)) \<and> health p \<le> 100 \<and> 1 \<le> depth p"

subsection \<open>Mining odds\<close>

lemma mine_of_nat:
  assumes "n \<le> 100" and "unat ic + unat gc \<le> 101"
  shows "mine ic gc (of_nat n) =
    (if n < unat ic then IronOre else if n < unat ic + unat gc then GoldOre else Diamond)"
proof -
  have n: "unat (of_nat n :: u8) = n" using assms(1) by (simp add: unat_of_nat)
  have s: "unat (ic + gc) = unat ic + unat gc" using assms(2) by (simp add: unat_add_no_wrap)
  show ?thesis using n s by (simp add: mine_def word_less_nat_alt)
qed

lemma filter_draws:
  "filter P draws = map of_nat (filter (\<lambda>n. P (of_nat n)) [1..<101])"
  by (simp add: draws_def filter_map comp_def)

lemma mine_counts:
  assumes "1 \<le> unat ic" and "unat ic + unat gc \<le> 101"
  shows "length (filter (\<lambda>r. mine ic gc r = IronOre) draws) = unat ic - 1"
    and "length (filter (\<lambda>r. mine ic gc r = GoldOre) draws) = unat gc"
    and "length (filter (\<lambda>r. mine ic gc r = Diamond) draws) = 101 - unat ic - unat gc"
proof -
  let ?sel = "\<lambda>n. if n < unat ic then IronOre else if n < unat ic + unat gc then GoldOre else Diamond"
  have cnt: "length (filter (\<lambda>r. mine ic gc r = x) draws) = card {i. 1 \<le> i \<and> i < 101 \<and> ?sel i = x}"
    for x
  proof -
    have "filter (\<lambda>n. mine ic gc (of_nat n) = x) [1..<101] = filter (\<lambda>n. ?sel n = x) [1..<101]"
      using assms(2) by (intro filter_cong) (simp_all add: mine_of_nat)
    then show ?thesis
      by (simp add: filter_draws length_filter_upt del: upt_Suc)
  qed
  have i: "{i. 1 \<le> i \<and> i < 101 \<and> ?sel i = IronOre} = {1..<unat ic}" using assms by auto
  have g: "{i. 1 \<le> i \<and> i < 101 \<and> ?sel i = GoldOre} = {unat ic..<unat ic + unat gc}"
    using assms by auto
  have d: "{i. 1 \<le> i \<and> i < 101 \<and> ?sel i = Diamond} = {unat ic + unat gc..<101}"
    using assms by auto
  show "length (filter (\<lambda>r. mine ic gc r = IronOre) draws) = unat ic - 1"
    by (simp only: cnt i) simp
  show "length (filter (\<lambda>r. mine ic gc r = GoldOre) draws) = unat gc"
    by (simp only: cnt g) simp
  show "length (filter (\<lambda>r. mine ic gc r = Diamond) draws) = 101 - unat ic - unat gc"
    by (simp only: cnt d) simp
qed

text \<open>C1: the ore a mining attempt yields. Of the 100 equally likely draws of
  \<open>gen_range(1..=100)\<close>, \<open>mine\<close> gives iron ore, gold ore and diamond for 56, 28 and 16
  draws at pickaxe level 1, for 53, 36 and 11 at level 2 and for 59, 40 and 1 at level 3:
  the strict \<open><\<close> moves one draw from iron to the next kind, and level 3 still finds a
  diamond on the draw 100.\<close>

theorem mine_ore_odds:
  "(ore_count 1 IronOre, ore_count 1 GoldOre, ore_count 1 Diamond) = (56, 28, 16) \<and>
   (ore_count 2 IronOre, ore_count 2 GoldOre, ore_count 2 Diamond) = (53, 36, 11) \<and>
   (ore_count 3 IronOre, ore_count 3 GoldOre, ore_count 3 Diamond) = (59, 40, 1)"
  by (simp add: ore_count_def ore_chances_def mine_counts)


subsection \<open>Health, money, depth and the pickaxe\<close>

text \<open>C8: \<open>spend\<close> succeeds exactly when the amount is covered, and then takes exactly the
  amount off the balance and changes nothing else; otherwise it fails with the source's
  message.\<close>

theorem spend_correct:
  "(unat amount \<le> unat (money (account p)) \<longrightarrow>
      (\<exists>q. spend p amount = Inr q \<and> unat (money (account q)) = unat (money (account p)) - unat amount \<and>
           q = p\<lparr>account := (account p)\<lparr>money := money (account q)\<rparr>\<rparr>)) \<and>
   (unat (money (account p)) < unat amount \<longrightarrow> spend p amount = Inl ''Error: Not enough money!'')"
  by (auto simp: spend_def word_le_nat_alt unat_sub_no_wrap)

theorem spend_correct_witness:
  "(\<exists>q. spend (new_player create_empty (new_account ''alice'')) 30 = Inr q \<and> unat (money (account q)) = 70) \<and>
   spend (new_player create_empty (new_account ''alice'')) 130 = Inl ''Error: Not enough money!''"
  using spend_correct [of 30 "new_player create_empty (new_account ''alice'')"]
    spend_correct [of 130 "new_player create_empty (new_account ''alice'')"]
  by (simp add: new_player_def new_account_def) blast

text \<open>C9: \<open>take_damage\<close> is a saturating subtraction: the new health is the old health minus
  the damage, stopping at 0, and nothing else changes.\<close>

theorem take_damage_saturates:
  "unat (health (take_damage p d)) = unat (health p) - unat d \<and>
   take_damage p d = p\<lparr>health := health (take_damage p d)\<rparr>"
  by (auto simp: take_damage_def overflowing_sub_def word_less_nat_alt unat_sub_no_wrap not_less word_le_nat_alt)

lemma heal_no_wrap:
  assumes "unat (health p) + unat amount < 256"
  shows "heal p amount = Inr (p\<lparr>health := of_nat (min 100 (unat (health p) + unat amount))\<rparr>)"
proof -
  have sum: "unat (health p + amount) = unat (health p) + unat amount"
    using assms by (simp add: unat_add_no_wrap)
  have "(100 < health p + amount) = (100 < unat (health p) + unat amount)"
    by (simp add: word_less_nat_alt sum)
  then show ?thesis
    using assms by (auto simp: heal_def rust_add_def min_def simp flip: sum)
qed

text \<open>C10: when the \<open>u8\<close> sum does not overflow, \<open>heal\<close> returns and sets the health to the sum
  capped at 100, changing nothing else.\<close>

theorem heal_capped:
  assumes "unat (health p) + unat amount < 256"
  shows "\<exists>q. heal p amount = Inr q \<and> unat (health q) = min 100 (unat (health p) + unat amount) \<and>
             q = p\<lparr>health := health q\<rparr>"
  by (simp add: heal_no_wrap [OF assms] unat_of_nat)

theorem heal_capped_witness:
  "\<exists>q. heal \<lparr>account = new_account ''alice'', inventory = create_empty, health = 50, depth = 1\<rparr> 30 = Inr q \<and>
       unat (health q) = 80"
  using heal_capped [of "\<lparr>account = new_account ''alice'', inventory = create_empty, health = 50, depth = 1\<rparr>" 30]
  by simp blast

text \<open>C27: \<open>heal\<close> is not saturating for every amount: when the \<open>u8\<close> sum overflows, the
  \<open>+=\<close> panics before the cap at 100 is applied.\<close>

theorem heal_overflow:
  "256 \<le> unat (health p) + unat amount \<Longrightarrow> heal p amount = Inl Add_overflow"
  by (simp add: heal_def rust_add_def)

theorem heal_overflow_witness: "heal (new_player create_empty (new_account ''alice'')) 200 = Inl Add_overflow"
  using heal_overflow [of "new_player create_empty (new_account ''alice'')" 200] by (simp add: new_player_def)

lemma heal_Inr:
  "heal p amount = Inr q \<Longrightarrow>
   health q \<le> 100 \<and> account q = account p \<and> inventory q = inventory p \<and> depth q = depth p"
  by (auto simp: heal_def split: sum.splits if_splits)

text \<open>C24: the upgrade cost is \<open>200 * level + 100\<close> for every \<open>u8\<close> level, without
  overflow of the \<open>u32\<close> arithmetic: 300, 500 and 700 at levels 1, 2 and 3.\<close>

theorem upgrade_pickaxe_cost_value:
  "unat (upgrade_pickaxe_cost p) = 200 * unat (pickaxe_level (account p)) + 100"
proof -
  have l: "unat (pickaxe_level (account p)) < 256" by (rule unat_u8_lt)
  have "unat ((ucast (pickaxe_level (account p)) :: u32) * 200) = unat (pickaxe_level (account p)) * 200"
    using l by (simp add: unat_mult_lem [THEN iffD1])
  with l show ?thesis
    by (simp add: upgrade_pickaxe_cost_def Let_def unat_add_no_wrap)
qed

text \<open>C23: \<open>upgrade_pickaxe\<close> raises the level by exactly one below 3 and is a no-op at 3 and
  above; it changes nothing but the level.\<close>

theorem upgrade_pickaxe_level:
  "unat (pickaxe_level (account (upgrade_pickaxe p))) =
     (if unat (pickaxe_level (account p)) < 3 then unat (pickaxe_level (account p)) + 1
      else unat (pickaxe_level (account p))) \<and>
   upgrade_pickaxe p = p\<lparr>account := (account p)\<lparr>pickaxe_level := pickaxe_level (account (upgrade_pickaxe p))\<rparr>\<rparr>"
  by (auto simp: upgrade_pickaxe_def word_less_nat_alt unat_add_no_wrap)

lemma go_deeper_ok:
  "unat (depth p) < 255 \<Longrightarrow> go_deeper p = Inr (p\<lparr>depth := depth p + 1\<rparr>) \<and> unat (depth p + 1) = unat (depth p) + 1"
  by (simp add: go_deeper_def rust_add_def unat_add_no_wrap)

lemma go_deeper_255: "depth p = 255 \<Longrightarrow> go_deeper p = Inl Add_overflow"
  by (simp add: go_deeper_def rust_add_def)

lemma can_eat_iff:
  "can_eat p index \<longleftrightarrow> 1 \<le> index \<and> index \<le> 6 \<and> foods (inventory p) ! nat (index - 1) \<noteq> None"
  by (auto simp: can_eat_def split: option.splits)

lemma eat_heal_case:
  "(case f of Apple \<Rightarrow> heal p 10 | Chicken \<Rightarrow> heal p 30 | Beef \<Rightarrow> heal p 40) = heal p (food_heal f)"
  by (cases f) (simp_all add: food_heal_def)

text \<open>C11: eating from an occupied slot of a valid player heals by the food's amount, capped
  at 100, and empties exactly that slot.\<close>

theorem eat_correct:
  assumes "player_inv p" and "can_eat p index"
  shows "\<exists>f. foods (inventory p) ! nat (index - 1) = Some f \<and>
     eat p index = Inr (p\<lparr>health := of_nat (min 100 (unat (health p) + unat (food_heal f))),
        inventory := (inventory p)\<lparr>foods := (foods (inventory p))[nat (index - 1) := None]\<rparr>\<rparr>)"
proof -
  from assms(2) obtain f where f: "foods (inventory p) ! nat (index - 1) = Some f"
    by (auto simp: can_eat_iff)
  have h: "unat (health p) \<le> 100" using assms(1) by (simp add: player_inv_def word_le_nat_alt)
  have fh: "unat (food_heal f) \<le> 40" by (cases f) (simp_all add: food_heal_def)
  have "heal p (food_heal f) = Inr (p\<lparr>health := of_nat (min 100 (unat (health p) + unat (food_heal f)))\<rparr>)"
    using h fh by (intro heal_no_wrap) simp
  then show ?thesis
    using assms(2) f eat_heal_case [where f = f and p = p]
    by (simp add: eat_def Let_def)
qed

theorem eat_correct_witness:
  "eat \<lparr>account = new_account ''alice'', inventory = \<lparr>ores = replicate 20 None, foods = Some Chicken # replicate 5 None\<rparr>, health = 50, depth = 1\<rparr> 1 =
   Inr \<lparr>account = new_account ''alice'', inventory = \<lparr>ores = replicate 20 None, foods = None # replicate 5 None\<rparr>,
        health = 80, depth = 1\<rparr>"
proof -
  have "player_inv \<lparr>account = new_account ''alice'', inventory = \<lparr>ores = replicate 20 None, foods = Some Chicken # replicate 5 None\<rparr>, health = 50, depth = 1\<rparr>"
    by (simp add: player_inv_def inv_wf_def)
  moreover have "can_eat \<lparr>account = new_account ''alice'', inventory = \<lparr>ores = replicate 20 None, foods = Some Chicken # replicate 5 None\<rparr>, health = 50, depth = 1\<rparr> 1"
    by (simp add: can_eat_iff)
  ultimately show ?thesis
    using eat_correct [of "\<lparr>account = new_account ''alice'', inventory = \<lparr>ores = replicate 20 None, foods = Some Chicken # replicate 5 None\<rparr>, health = 50, depth = 1\<rparr>" 1] by (simp add: food_heal_def)
qed

subsection \<open>Mining\<close>

lemma fold_mine_step:
  "fold (\<lambda>i q. if fst (roll i) then q\<lparr>inventory := push_ore (inventory q) (g i)\<rparr> else q) is q =
   q\<lparr>inventory := (inventory q)\<lparr>ores := foldl push_slot (ores (inventory q)) (map g (filter (\<lambda>i. fst (roll i)) is))\<rparr>\<rparr>"
  by (induction "is" arbitrary: q) (simp_all add: push_ore_def)

lemma mine_ore_eq:
  "mine_ore p roll =
   p\<lparr>inventory := (inventory p)\<lparr>ores := foldl push_slot (ores (inventory p)) (mined_ores p roll)\<rparr>\<rparr>"
  by (simp add: mine_ore_def mined_ores_def fold_mine_step split: prod.splits)

lemma length_mined_ores: "length (mined_ores p roll) \<le> 2"
proof -
  have "length (filter (\<lambda>i. fst (roll i)) [1..<3]) \<le> length [1..<3::nat]"
    by (rule length_filter_le)
  then show ?thesis by (simp add: mined_ores_def split: prod.splits)
qed

text \<open>C25: with room for two more ores, one mining attempt adds exactly the ores it digs
  (zero, one or two, by the Bernoulli draws) and changes nothing else.\<close>

theorem mine_ore_adds:
  assumes "player_inv p" and "length (somes (ores (inventory p))) + 2 \<le> 20"
  shows "mset (somes (ores (inventory (mine_ore p roll)))) =
           mset (somes (ores (inventory p))) + mset (mined_ores p roll) \<and>
         mine_ore p roll = p\<lparr>inventory := (inventory p)\<lparr>ores := ores (inventory (mine_ore p roll))\<rparr>\<rparr>"
proof -
  let ?ys = "somes (ores (inventory p))"
  let ?k = "20 - length ?ys"
  from assms(1) have l: "length (ores (inventory p)) = 20" and pk: "packed (ores (inventory p))"
    by (simp_all add: player_inv_def inv_wf_def)
  have os: "ores (inventory p) = map Some ?ys @ replicate ?k None"
    using pk [unfolded packed_def l] .
  have "foldl push_slot (ores (inventory p)) (mined_ores p roll) =
        map Some (?ys @ mined_ores p roll) @ replicate (?k - length (mined_ores p roll)) None"
    using assms(2) length_mined_ores [of p roll]
    by (subst os, subst foldl_push_slot_packed) simp
  then show ?thesis by (simp add: mine_ore_eq)
qed

theorem mine_ore_adds_witness:
  "mset (somes (ores (inventory (mine_ore (new_player create_empty (new_account ''alice''))
      (\<lambda>i. (True, if i = 1 then 90 else 10)))))) = {#Diamond, IronOre#}"
proof -
  let ?p = "new_player create_empty (new_account ''alice'')"
  have "player_inv ?p" by (simp add: player_inv_def new_player_def inv_wf_def create_empty_def)
  moreover have "length (somes (ores (inventory ?p))) + 2 \<le> 20"
    by (simp add: new_player_def create_empty_def)
  moreover have "mined_ores ?p (\<lambda>i. (True, if i = 1 then 90 else 10)) = [Diamond, IronOre]"
    by (simp add: mined_ores_def new_player_def new_account_def ore_chances_def mine_def upt_rec)
  ultimately show ?thesis
    using mine_ore_adds [of ?p "\<lambda>i. (True, if i = 1 then 90 else 10)"]
    by (simp add: new_player_def create_empty_def)
qed

subsection \<open>The comparison traits\<close>

text \<open>C28: \<open>Ord\<close> and \<open>Eq\<close> of \<open>Player\<close> disagree: any two players with different names
  and the same balance compare \<open>Equal\<close>, in both orders, and are not equal, which the
  contract of \<open>Ord\<close> (\<open>cmp\<close> is \<open>Equal\<close> exactly for equal values) forbids.\<close>

theorem player_ord_eq_inconsistent:
  assumes "money (account a) = money (account b)" and "username (account a) \<noteq> username (account b)"
  shows "player_cmp a b = Equal \<and> player_cmp b a = Equal \<and> \<not> player_eq a b \<and> \<not> player_eq b a"
  using assms by (simp add: player_cmp_def player_eq_def cmp_u32_def)

theorem player_ord_eq_inconsistent_witness:
  "player_cmp (new_player create_empty (new_account ''ann'')) (new_player create_empty (new_account ''bob'')) = Equal \<and>
   \<not> player_eq (new_player create_empty (new_account ''ann'')) (new_player create_empty (new_account ''bob''))"
  using player_ord_eq_inconsistent [of "new_player create_empty (new_account ''ann'')"
      "new_player create_empty (new_account ''bob'')"]
  by (simp add: new_player_def new_account_def)

subsection \<open>The player invariant\<close>

lemma player_inv_new [inv_rules]:
  "inv_wf iv \<Longrightarrow> packed (ores iv) \<Longrightarrow> player_inv (new_player iv a)"
  by (simp add: player_inv_def new_player_def)

lemma player_inv_take_damage [inv_rules]: "player_inv p \<Longrightarrow> player_inv (take_damage p d)"
  by (auto simp: take_damage_def overflowing_sub_def player_inv_def not_less
      intro: order_trans [OF word_sub_le])

lemma player_inv_heal [inv_rules]: "player_inv p \<Longrightarrow> heal p a = Inr q \<Longrightarrow> player_inv q"
  by (drule heal_Inr) (auto simp: player_inv_def)

lemma player_inv_eat [inv_rules]: "player_inv p \<Longrightarrow> eat p index = Inr q \<Longrightarrow> player_inv q"
  by (auto simp: eat_def Let_def eat_heal_case player_inv_def inv_wf_def
      split: if_splits option.splits sum.splits dest!: heal_Inr)

lemma player_inv_purge [inv_rules]: "player_inv p \<Longrightarrow> player_inv (purge_inventory p)"
  by (simp add: player_inv_def purge_inventory_def inv_wf_def)

lemma player_inv_mine_ore [inv_rules]: "player_inv p \<Longrightarrow> player_inv (mine_ore p roll)"
proof -
  have "packed xs \<Longrightarrow> packed (foldl push_slot xs ys)" for xs :: "ore option list" and ys
    by (induction ys arbitrary: xs) (simp_all add: packed_push_slot)
  moreover have "length (foldl push_slot xs ys) = length xs" for xs :: "ore option list" and ys
    by (induction ys arbitrary: xs) simp_all
  ultimately show "player_inv p \<Longrightarrow> player_inv (mine_ore p roll)"
    by (simp add: player_inv_def mine_ore_eq inv_wf_def)
qed

lemma player_inv_spend [inv_rules]: "player_inv p \<Longrightarrow> spend p a = Inr q \<Longrightarrow> player_inv q"
  by (auto simp: spend_def player_inv_def split: if_splits)

lemma player_inv_upgrade [inv_rules]: "player_inv p \<Longrightarrow> player_inv (upgrade_pickaxe p)"
  by (simp add: upgrade_pickaxe_def player_inv_def)

lemma player_inv_stop_mining [inv_rules]: "player_inv p \<Longrightarrow> player_inv (stop_mining p)"
  by (simp add: stop_mining_def player_inv_def)

lemma player_inv_go_deeper [inv_rules]: "player_inv p \<Longrightarrow> go_deeper p = Inr q \<Longrightarrow> player_inv q"
proof -
  assume inv: "player_inv p" and g: "go_deeper p = Inr q"
  then have "unat (depth p) + 1 < 256" and q: "q = p\<lparr>depth := depth p + 1\<rparr>"
    by (auto simp: go_deeper_def rust_add_def split: if_splits)
  then have "unat (depth q) = unat (depth p) + 1" by (simp add: unat_add_no_wrap)
  with inv q show ?thesis by (simp add: player_inv_def word_le_nat_alt)
qed

end
