(* ===== verification/Game.thy ===== *)
theory Game
  imports Player
begin

text \<open>
  The game layer, \<open>src/main.rs\<close>: what the menus do with the selected player for one
  input. \<open>dig\<close> draws up to three event numbers (\<open>try_starting_event\<close>) and then always
  mines; the shop sells every ore at the prices of \<open>sell_ores_menu\<close> and buys food or the
  pickaxe upgrade as \<open>buy_item_menu\<close> does for one menu choice; \<open>login_menu\<close> sorts the
  roster by balance; \<open>register_menu\<close> accepts one line. The draws of one \<open>dig\<close> are
  the record \<open>dig_draws\<close>; a draw that the code does not make (a later event after an earlier
  one fired) is simply not read. The menu loops around these actions are in \<open>Session\<close>.
\<close>

definition try_starting_event :: "u8 \<Rightarrow> u8 \<Rightarrow> bool" where
  "try_starting_event chance random_num \<longleftrightarrow> random_num \<le> chance"

datatype dig_event = Deeper | Hungry | Creeper | Quiet

record dig_draws =
  event1 :: u8
  event2 :: u8
  event3 :: u8
  ore_roll :: "nat \<Rightarrow> bool \<times> u8"

text \<open>The \<open>if\<close>/\<open>else if\<close> chain of \<open>dig\<close>: which of its branches runs.\<close>

definition dig_event_of :: "u8 \<Rightarrow> u8 \<Rightarrow> u8 \<Rightarrow> dig_event" where
  "dig_event_of r1 r2 r3 =
     (if try_starting_event 40 r1 then Deeper
      else if try_starting_event 20 r2 then Hungry
      else if try_starting_event 10 r3 then Creeper
      else Quiet)"

definition dig :: "player \<Rightarrow> dig_draws \<Rightarrow> panic + player" where
  "dig p d =
     (case (case dig_event_of (event1 d) (event2 d) (event3 d) of
              Deeper \<Rightarrow> go_deeper p
            | Hungry \<Rightarrow> Inr (take_damage p 10)
            | Creeper \<Rightarrow> Inr (take_damage p 30)
            | Quiet \<Rightarrow> Inr p) of
        Inl e \<Rightarrow> Inl e
      | Inr q \<Rightarrow> Inr (mine_ore q (ore_roll d)))"

text \<open>The number of the \<open>10^6\<close> equally likely triples of event draws that select each
  branch of \<open>dig\<close>.\<close>

definition event_count :: "dig_event \<Rightarrow> nat" where
  "event_count e =
     length (filter (\<lambda>(r1, r2, r3). dig_event_of r1 r2 r3 = e) (List.product draws (List.product draws draws)))"

text \<open>The ore tally of \<open>sell_ores_menu\<close> (three \<open>u32\<close> counters over the ore slots) and
  the sale: credit the total at the menu's prices with \<open>+=\<close>, then \<open>purge_inventory\<close>.\<close>

definition tally_step :: "u32 \<times> u32 \<times> u32 \<Rightarrow> ore option \<Rightarrow> u32 \<times> u32 \<times> u32" where
  "tally_step c s =
     (let (iron, gold, diamond) = c in
      case s of None \<Rightarrow> (iron, gold, diamond)
      | Some IronOre \<Rightarrow> (iron + 1, gold, diamond)
      | Some Diamond \<Rightarrow> (iron, gold, diamond + 1)
      | Some GoldOre \<Rightarrow> (iron, gold + 1, diamond))"

definition ore_tally :: "ore option list \<Rightarrow> u32 \<times> u32 \<times> u32" where
  "ore_tally os = foldl tally_step (0, 0, 0) os"

definition sell_all :: "player \<Rightarrow> panic + player" where
  "sell_all p =
     (let (iron_count, gold_count, diamond_count) = ore_tally (ores (inventory p));
          total_added_money = iron_count * 20 + gold_count * 50 + diamond_count * 120
      in case rust_add (money (account p)) total_added_money of
           Inl e \<Rightarrow> Inl e
         | Inr m \<Rightarrow> Inr (purge_inventory (p\<lparr>account := (account p)\<lparr>money := m\<rparr>\<rparr>)))"

text \<open>The price list of the shop, as \<open>sell_ores_menu\<close> prints and applies it, and the
  value of an inventory's ores at those prices.\<close>

definition ore_price :: "ore \<Rightarrow> nat" where
  "ore_price x = (case x of IronOre \<Rightarrow> 20 | GoldOre \<Rightarrow> 50 | Diamond \<Rightarrow> 120)"

definition sale_value :: "inventory \<Rightarrow> nat" where
  "sale_value iv = sum_list (map ore_price (somes (ores iv)))"

text \<open>One choice of \<open>buy_item_menu\<close>. Choice 4 buys the upgrade while the pickaxe is not
  maxed; otherwise the \<open>match\<close> maps 1 to 3 to a food and its price, 4 and 5 to leaving
  the shop and anything else to asking again. A food is bought only with a free food
  slot (\<open>iter().any(is_none)\<close>) and a successful \<open>spend\<close>.\<close>

datatype buy_item = Food_offer u32 food | Leave_shop | Ask_again

definition buy_match :: "int \<Rightarrow> buy_item" where
  "buy_match choice =
     (if choice = 1 then Food_offer 30 Apple
      else if choice = 2 then Food_offer 70 Chicken
      else if choice = 3 then Food_offer 90 Beef
      else if choice = 4 \<or> choice = 5 then Leave_shop
      else Ask_again)"

datatype buy_outcome = Upgraded | Refused string | Bought food | No_free_space | Left_shop | Not_an_item

definition buy_item_choice :: "player \<Rightarrow> int \<Rightarrow> player \<times> buy_outcome" where
  "buy_item_choice p choice =
     (if choice = 4 \<and> \<not> is_pickaxe_maxed p then
        (case spend p (upgrade_pickaxe_cost p) of
           Inr q \<Rightarrow> (upgrade_pickaxe q, Upgraded)
         | Inl msg \<Rightarrow> (p, Refused msg))
      else (case buy_match choice of
              Leave_shop \<Rightarrow> (p, Left_shop)
            | Ask_again \<Rightarrow> (p, Not_an_item)
            | Food_offer price f \<Rightarrow>
                if \<not> list_ex (\<lambda>s. s = None) (foods (inventory p)) then (p, No_free_space)
                else (case spend p price of
                        Inl msg \<Rightarrow> (p, Refused msg)
                      | Inr q \<Rightarrow> (q\<lparr>inventory := push_food (inventory q) f\<rparr>, Bought f))))"

text \<open>\<open>slice::sort_by\<close> is a stable sort; a stable insertion sort by the same comparator
  computes the same list. \<open>login_menu\<close> sorts with \<open>|a, b| b.cmp(a)\<close>.\<close>

fun insort_by :: "('a \<Rightarrow> 'a \<Rightarrow> cmp_ordering) \<Rightarrow> 'a \<Rightarrow> 'a list \<Rightarrow> 'a list" where
  "insort_by c x [] = [x]"
| "insort_by c x (y # ys) = (if c x y = Greater then y # insort_by c x ys else x # y # ys)"

fun sort_by :: "('a \<Rightarrow> 'a \<Rightarrow> cmp_ordering) \<Rightarrow> 'a list \<Rightarrow> 'a list" where
  "sort_by c [] = []"
| "sort_by c (x # xs) = insort_by c x (sort_by c xs)"

definition login_order :: "player list \<Rightarrow> player list" where
  "login_order players = sort_by (\<lambda>a b. player_cmp b a) players"

text \<open>\<open>register_menu\<close> for one line read: the trimmed input is accepted when every character
  is alphanumeric, and a new player is appended to the roster; otherwise the menu asks
  again (\<open>None\<close>).\<close>

definition is_alphanumeric_string :: "string \<Rightarrow> bool" where
  "is_alphanumeric_string s \<longleftrightarrow> list_all is_alphanumeric s"

definition register :: "player list \<Rightarrow> string \<Rightarrow> player list option" where
  "register players line =
     (let input = trim line in
      if is_alphanumeric_string input
      then Some (players @ [new_player create_empty (new_account input)])
      else None)"

subsection \<open>Digging\<close>

lemma draws_at_most:
  assumes "k \<le> 100"
  shows "length (filter (\<lambda>r. r \<le> of_nat k) draws) = k"
    and "length (filter (\<lambda>r. \<not> r \<le> of_nat k) draws) = 100 - k"
proof -
  have le: "(of_nat n :: u8) \<le> of_nat k \<longleftrightarrow> n \<le> k" if "n \<le> 100" for n
    using that assms by (simp add: word_le_nat_alt unat_of_nat)
  have "filter (\<lambda>n. (of_nat n :: u8) \<le> of_nat k) [1..<101] = filter (\<lambda>n. n \<le> k) [1..<101]"
    by (rule filter_cong) (simp_all add: le)
  moreover have "filter (\<lambda>n. \<not> (of_nat n :: u8) \<le> of_nat k) [1..<101] = filter (\<lambda>n. \<not> n \<le> k) [1..<101]"
    by (rule filter_cong) (simp_all add: le)
  moreover have "{i. 1 \<le> i \<and> i < 101 \<and> i \<le> k} = {1..k}" using assms by auto
  moreover have "{i. 1 \<le> i \<and> i < 101 \<and> \<not> i \<le> k} = {k<..100}" using assms by auto
  ultimately show "length (filter (\<lambda>r. r \<le> of_nat k) draws) = k"
    and "length (filter (\<lambda>r. \<not> r \<le> of_nat k) draws) = 100 - k"
    by (simp_all add: filter_draws length_filter_upt del: upt_Suc)
qed

lemma length_draws [simp]: "length draws = 100"
  by (simp add: draws_def)

text \<open>C2: the branch \<open>dig\<close> takes. Of the \<open>10^6\<close> equally likely triples of
  event draws, 400000 descend, 120000 make the player hungry, 48000 let a creeper explode
  and 432000 do nothing: 40%, 12%, 4.8% and 43.2%, because each later event is only tried
  when the earlier ones failed.\<close>

theorem dig_event_odds:
  "event_count Deeper = 400000 \<and> event_count Hungry = 120000 \<and>
   event_count Creeper = 48000 \<and> event_count Quiet = 432000"
proof -
  have c40: "length (filter (\<lambda>r. r \<le> 40) draws) = 40" "length (filter (\<lambda>r. \<not> r \<le> 40) draws) = 60"
    using draws_at_most [of 40] by simp_all
  have c20: "length (filter (\<lambda>r. r \<le> 20) draws) = 20" "length (filter (\<lambda>r. \<not> r \<le> 20) draws) = 80"
    using draws_at_most [of 20] by simp_all
  have c10: "length (filter (\<lambda>r. r \<le> 10) draws) = 10" "length (filter (\<lambda>r. \<not> r \<le> 10) draws) = 90"
    using draws_at_most [of 10] by simp_all
  have all: "length (filter (\<lambda>_. True) (List.product draws draws)) = 10000"
    by simp
  have d: "event_count Deeper = length (filter (\<lambda>(a, bc). a \<le> 40 \<and> (\<lambda>_. True) bc) (List.product draws (List.product draws draws)))"
    unfolding event_count_def by (rule arg_cong [where f = length], rule filter_cong)
      (auto simp: dig_event_of_def try_starting_event_def split: prod.splits)
  have h: "event_count Hungry = length (filter (\<lambda>(a, bc). \<not> a \<le> 40 \<and> (\<lambda>(b, c). b \<le> 20 \<and> (\<lambda>_. True) c) bc) (List.product draws (List.product draws draws)))"
    unfolding event_count_def by (rule arg_cong [where f = length], rule filter_cong)
      (auto simp: dig_event_of_def try_starting_event_def split: prod.splits)
  have c: "event_count Creeper = length (filter (\<lambda>(a, bc). \<not> a \<le> 40 \<and> (\<lambda>(b, c). \<not> b \<le> 20 \<and> c \<le> 10) bc) (List.product draws (List.product draws draws)))"
    unfolding event_count_def by (rule arg_cong [where f = length], rule filter_cong)
      (auto simp: dig_event_of_def try_starting_event_def split: prod.splits)
  have q: "event_count Quiet = length (filter (\<lambda>(a, bc). \<not> a \<le> 40 \<and> (\<lambda>(b, c). \<not> b \<le> 20 \<and> \<not> c \<le> 10) bc) (List.product draws (List.product draws draws)))"
    unfolding event_count_def by (rule arg_cong [where f = length], rule filter_cong)
      (auto simp: dig_event_of_def try_starting_event_def split: prod.splits)
  show ?thesis
    using c40 c20 c10
    by (simp add: d h c q length_filter_product length_filter_product_fst)
qed

subsection \<open>Selling\<close>

lemma foldl_tally_step:
  "foldl tally_step (i, g, d) os =
   (i + of_nat (count_list (somes os) IronOre), g + of_nat (count_list (somes os) GoldOre),
    d + of_nat (count_list (somes os) Diamond))"
proof (induction os arbitrary: i g d)
  case Nil
  then show ?case by simp
next
  case (Cons s os)
  then show ?case
    by (cases s) (auto simp: tally_step_def split: ore.splits simp flip: add.assoc)
qed

lemma sum_ore_price:
  "sum_list (map ore_price xs) =
   20 * count_list xs IronOre + 50 * count_list xs GoldOre + 120 * count_list xs Diamond"
  by (induction xs) (auto simp: ore_price_def split: ore.splits)

lemma count_list_le_length: "count_list xs x \<le> length xs"
  by (induction xs) auto

lemma count_list_ore_kinds:
  "count_list xs IronOre + count_list xs GoldOre + count_list xs Diamond = length xs"
proof (induction xs)
  case (Cons x xs)
  then show ?case by (cases x) simp_all
qed simp

lemma sale_total:
  assumes "inv_wf iv"
  shows "(let (iron_count, gold_count, diamond_count) = ore_tally (ores iv)
          in iron_count * 20 + gold_count * 50 + diamond_count * 120) = (of_nat (sale_value iv) :: u32)"
    and "sale_value iv \<le> 2400"
proof -
  let ?xs = "somes (ores iv)"
  have "length ?xs \<le> 20" using assms length_somes [of "ores iv"] by (simp add: inv_wf_def)
  moreover have "sale_value iv \<le> 120 * length ?xs"
  proof -
    from count_list_ore_kinds [of ?xs] show ?thesis by (simp add: sale_value_def sum_ore_price)
  qed
  ultimately show "sale_value iv \<le> 2400" by simp
  show "(let (iron_count, gold_count, diamond_count) = ore_tally (ores iv)
          in iron_count * 20 + gold_count * 50 + diamond_count * 120) = (of_nat (sale_value iv) :: u32)"
    by (simp add: ore_tally_def foldl_tally_step sale_value_def sum_ore_price algebra_simps)
qed

lemma sell_all_eq:
  "sell_all p =
   (case rust_add (money (account p)) (of_nat (sale_value (inventory p))) of
      Inl e \<Rightarrow> Inl e
    | Inr m \<Rightarrow> Inr (purge_inventory (p\<lparr>account := (account p)\<lparr>money := m\<rparr>\<rparr>)))"
  by (simp add: sell_all_def ore_tally_def foldl_tally_step sale_value_def sum_ore_price algebra_simps)

text \<open>C15: selling credits exactly the value of the ores at 20, 50 and 120 and empties
  every ore slot, changing nothing else, when the balance does not overflow.\<close>

theorem sell_all_correct:
  assumes "inv_wf (inventory p)" and "unat (money (account p)) + sale_value (inventory p) < 2 ^ 32"
  shows "\<exists>q. sell_all p = Inr q \<and>
           unat (money (account q)) = unat (money (account p)) + sale_value (inventory p) \<and>
           q = p\<lparr>account := (account p)\<lparr>money := money (account q)\<rparr>,
                 inventory := (inventory p)\<lparr>ores := replicate 20 None\<rparr>\<rparr>"
proof -
  have v: "unat (of_nat (sale_value (inventory p)) :: u32) = sale_value (inventory p)"
    using sale_total(2) [OF assms(1)] by (simp add: unat_of_nat)
  have l: "length (ores (inventory p)) = 20" using assms(1) by (simp add: inv_wf_def)
  show ?thesis
    using assms(2) v l
    by (simp add: sell_all_eq rust_add_def unat_add_no_wrap purge_inventory_def map_replicate_const)
qed

theorem sell_all_correct_witness:
  "\<exists>q. sell_all \<lparr>account = \<lparr>username = ''alice'', money = 100, pickaxe_level = 1\<rparr>,
      inventory = \<lparr>ores = [Some IronOre, Some IronOre, Some GoldOre] @ replicate 17 None, foods = replicate 6 None\<rparr>,
      health = 100, depth = 1\<rparr> = Inr q \<and> unat (money (account q)) = 190"
proof -
  let ?p = "\<lparr>account = \<lparr>username = ''alice'', money = 100, pickaxe_level = 1\<rparr>,
      inventory = \<lparr>ores = [Some IronOre, Some IronOre, Some GoldOre] @ replicate 17 None, foods = replicate 6 None\<rparr>,
      health = 100, depth = 1\<rparr>"
  have "inv_wf (inventory ?p)" by (simp add: inv_wf_def)
  moreover have "sale_value (inventory ?p) = 90" by (simp add: sale_value_def ore_price_def)
  ultimately show ?thesis using sell_all_correct [of ?p] by auto
qed

text \<open>C26: when the credit overflows the \<open>u32\<close> balance, selling panics: the balance
  is not unbounded as the spec says.\<close>

theorem sell_all_overflow:
  assumes "inv_wf (inventory p)" and "2 ^ 32 \<le> unat (money (account p)) + sale_value (inventory p)"
  shows "sell_all p = Inl Add_overflow"
proof -
  have v: "unat (of_nat (sale_value (inventory p)) :: u32) = sale_value (inventory p)"
    using sale_total(2) [OF assms(1)] by (simp add: unat_of_nat)
  with assms(2) show ?thesis by (simp add: sell_all_eq rust_add_def)
qed

theorem sell_all_overflow_witness:
  "sell_all \<lparr>account = \<lparr>username = ''alice'', money = 4294967295, pickaxe_level = 1\<rparr>,
      inventory = \<lparr>ores = Some IronOre # replicate 19 None, foods = replicate 6 None\<rparr>,
      health = 100, depth = 1\<rparr> = Inl Add_overflow"
proof -
  let ?p = "\<lparr>account = \<lparr>username = ''alice'', money = 4294967295, pickaxe_level = 1\<rparr>,
      inventory = \<lparr>ores = Some IronOre # replicate 19 None, foods = replicate 6 None\<rparr>,
      health = 100, depth = 1\<rparr>"
  have "inv_wf (inventory ?p)" by (simp add: inv_wf_def)
  moreover have "sale_value (inventory ?p) = 20" by (simp add: sale_value_def ore_price_def)
  ultimately show ?thesis using sell_all_overflow [of ?p] by simp
qed

subsection \<open>The roster order, buying and registration\<close>

lemma insort_by_key:
  "insort_by (\<lambda>a b. player_cmp b a) x xs = insort_key (\<lambda>p. - uint (money (account p))) x xs"
  by (induction xs) (auto simp: player_cmp_def cmp_u32_def word_less_def word_uint_eq_iff)

text \<open>The roster order of \<open>login_menu\<close> is the library's stable \<open>sort_key\<close> by
  descending balance.\<close>

lemma login_order_sort_key:
  "login_order ps = sort_key (\<lambda>p. - uint (money (account p))) ps"
  by (induction ps) (simp_all add: login_order_def insort_by_key)

text \<open>C20: the roster order is a permutation of the roster, non-increasing in balance,
  and keeps the original order among players with equal balances.\<close>

corollary login_order_props:
  "mset (login_order ps) = mset ps \<and>
   sorted_wrt (\<lambda>a b. money (account b) \<le> money (account a)) (login_order ps) \<and>
   (\<forall>m. filter (\<lambda>p. money (account p) = m) (login_order ps) = filter (\<lambda>p. money (account p) = m) ps)"
proof (intro conjI allI)
  show "mset (login_order ps) = mset ps" by (simp add: login_order_sort_key)
  have "sorted (map (\<lambda>p. - uint (money (account p))) (login_order ps))"
    by (simp add: login_order_sort_key)
  then show "sorted_wrt (\<lambda>a b. money (account b) \<le> money (account a)) (login_order ps)"
    by (simp add: sorted_map sorted_wrt_iff_nth_less word_le_def)
  fix m :: u32
  have "filter (\<lambda>p. - uint (money (account p)) = - uint m) (login_order ps) =
        filter (\<lambda>p. - uint (money (account p)) = - uint m) ps"
    by (simp only: login_order_sort_key sort_key_stable)
  then show "filter (\<lambda>p. money (account p) = m) (login_order ps) = filter (\<lambda>p. money (account p) = m) ps"
    by (simp add: word_uint_eq_iff)
qed

lemma list_ex_None: "list_ex (\<lambda>s. s = None) xs \<longleftrightarrow> None \<in> set xs"
  by (auto simp: list_ex_iff)

text \<open>C16: buying food: with no free food slot nothing changes; with a free slot and too
  little money the purchase is refused and nothing changes; otherwise exactly the price is
  paid and the food goes into the first free slot.\<close>

theorem buy_food:
  assumes "buy_match choice = Food_offer price f"
  shows "(None \<notin> set (foods (inventory p)) \<longrightarrow> buy_item_choice p choice = (p, No_free_space)) \<and>
    (None \<in> set (foods (inventory p)) \<and> money (account p) < price \<longrightarrow>
       buy_item_choice p choice = (p, Refused ''Error: Not enough money!'')) \<and>
    (None \<in> set (foods (inventory p)) \<and> price \<le> money (account p) \<longrightarrow>
       buy_item_choice p choice =
         (p\<lparr>account := (account p)\<lparr>money := money (account p) - price\<rparr>,
            inventory := push_food (inventory p) f\<rparr>, Bought f))"
proof -
  from assms have "choice \<in> {1, 2, 3}"
    by (auto simp: buy_match_def split: if_splits)
  then have "\<not> (choice = 4 \<and> \<not> is_pickaxe_maxed p)" by auto
  with assms show ?thesis
    by (auto simp: buy_item_choice_def list_ex_None spend_def not_le)
qed

theorem buy_food_witness:
  "buy_item_choice (new_player create_empty (new_account ''alice'')) 1 =
     (\<lparr>account = \<lparr>username = ''alice'', money = 70, pickaxe_level = 1\<rparr>,
       inventory = \<lparr>ores = replicate 20 None, foods = Some Apple # replicate 5 None\<rparr>,
       health = 100, depth = 1\<rparr>, Bought Apple)"
proof -
  have slot: "push_slot (replicate 6 None) Apple = Some Apple # replicate 5 None"
    by (simp add: numeral_eq_Suc)
  have "buy_match 1 = Food_offer 30 Apple" by (simp add: buy_match_def)
  with buy_food [of 1 30 Apple "new_player create_empty (new_account ''alice'')"] show ?thesis
    by (simp add: new_player_def new_account_def create_empty_def push_food_def slot)
qed

text \<open>C17: buying the upgrade (choice 4 below level 3) pays exactly the cost and raises
  the level by one when the balance covers it, and is refused without change otherwise.\<close>

theorem buy_upgrade:
  assumes "\<not> is_pickaxe_maxed p"
  shows "(upgrade_pickaxe_cost p \<le> money (account p) \<longrightarrow>
       buy_item_choice p 4 =
         (p\<lparr>account := (account p)\<lparr>money := money (account p) - upgrade_pickaxe_cost p,
                                       pickaxe_level := pickaxe_level (account p) + 1\<rparr>\<rparr>, Upgraded)) \<and>
    (money (account p) < upgrade_pickaxe_cost p \<longrightarrow>
       buy_item_choice p 4 = (p, Refused ''Error: Not enough money!''))"
  using assms by (auto simp: buy_item_choice_def spend_def upgrade_pickaxe_def is_pickaxe_maxed_def not_le)

theorem buy_upgrade_witness:
  "buy_item_choice \<lparr>account = \<lparr>username = ''alice'', money = 350, pickaxe_level = 1\<rparr>,
      inventory = create_empty, health = 100, depth = 1\<rparr> 4 =
   (\<lparr>account = \<lparr>username = ''alice'', money = 50, pickaxe_level = 2\<rparr>,
      inventory = create_empty, health = 100, depth = 1\<rparr>, Upgraded)"
proof -
  let ?p = "\<lparr>account = \<lparr>username = ''alice'', money = 350, pickaxe_level = 1\<rparr>,
      inventory = create_empty, health = 100, depth = 1\<rparr>"
  have "\<not> is_pickaxe_maxed ?p" by (simp add: is_pickaxe_maxed_def word_le_nat_alt)
  moreover have "upgrade_pickaxe_cost ?p = 300" by (simp add: upgrade_pickaxe_cost_def)
  ultimately show ?thesis using buy_upgrade [of ?p] by simp
qed

text \<open>C29: registration does not check that a name is free: for every roster and every
  line whose trimmed content is an alphanumeric name some player already has, the new
  player is appended and the roster then holds at least two players of that name.\<close>

theorem register_taken_name:
  assumes "trim line = u" and "list_all is_alphanumeric u"
    and "u \<in> set (map (\<lambda>p. username (account p)) ps)"
  shows "register ps line = Some (ps @ [new_player create_empty (new_account u)]) \<and>
         2 \<le> length (filter (\<lambda>p. username (account p) = u) (ps @ [new_player create_empty (new_account u)]))"
proof -
  from assms(3) have "filter (\<lambda>p. username (account p) = u) ps \<noteq> []"
    by (auto simp: filter_empty_conv)
  then have "1 \<le> length (filter (\<lambda>p. username (account p) = u) ps)"
    by (simp add: Suc_le_eq)
  with assms(1,2) show ?thesis
    by (simp add: register_def Let_def is_alphanumeric_string_def new_player_def new_account_def)
qed

theorem register_taken_name_witness:
  "register [new_player create_empty (new_account ''bob'')] '' bob'' =
     Some [new_player create_empty (new_account ''bob''), new_player create_empty (new_account ''bob'')] \<and>
   2 \<le> length (filter (\<lambda>p. username (account p) = ''bob'')
          [new_player create_empty (new_account ''bob''), new_player create_empty (new_account ''bob'')])"
  using register_taken_name [of "'' bob''" "''bob''" "[new_player create_empty (new_account ''bob'')]"]
  by (simp add: trim_def is_whitespace_def is_alphanumeric_def new_player_def new_account_def)

text \<open>C32: registration accepts the empty name: every line made only of whitespace, the
  empty line included, appends a player whose name is empty.\<close>

theorem register_blank_name:
  "list_all is_whitespace line \<Longrightarrow>
   register ps line = Some (ps @ [new_player create_empty (new_account [])])"
  by (simp add: register_def Let_def trim_all_whitespace is_alphanumeric_string_def)

theorem register_blank_name_witness:
  "register [] [CHR 0x20, CHR 0x09] = Some [new_player create_empty (new_account [])]"
  using register_blank_name [of "[CHR 0x20, CHR 0x09]" "[]"] by (simp add: is_whitespace_def)

end
