(* ===== verification/Persistence.thy ===== *)
theory Persistence
  imports Game
begin

text \<open>
  Persistence of the roster, \<open>src/main.rs\<close> and the writer of \<open>src/inventory/mod.rs\<close>: at
  start-up every account line becomes a player whose inventory is the first inventory
  line that starts with the account's name (\<open>load_roster\<close>); after every cycle of the title
  menu both files are rewritten from the roster (\<open>save_roster\<close>). Health and depth are
  not stored, and the inventory line stores the ores only.
\<close>

definition update_inventory_file :: "player list \<Rightarrow> string" where
  "update_inventory_file players =
     unlines (map (\<lambda>p. inventory_line (username (account p)) (inventory p)) players)"

definition save_roster :: "player list \<Rightarrow> string \<times> string" where
  "save_roster players = (update_account_file (map account players), update_inventory_file players)"

definition load_roster :: "string option \<Rightarrow> string option \<Rightarrow> io_error + player list" where
  "load_roster account_file inventory_file =
     (case parse_account_file account_file of
        Inl e \<Rightarrow> Inl e
      | Inr accounts \<Rightarrow>
          Inr (map (\<lambda>a. new_player
                        (case search_inventory_file inventory_file (username a) of
                           Inr iv \<Rightarrow> iv | Inl _ \<Rightarrow> create_empty) a) accounts))"

text \<open>What survives a save and a load: the account and the ores; the food slots come
  back empty and health and depth start afresh.\<close>

definition reloaded :: "player \<Rightarrow> player" where
  "reloaded p = new_player ((inventory p)\<lparr>foods := replicate 6 None\<rparr>) (account p)"

text \<open>Names for which the inventory search finds the right line: alphanumeric, not an
  item token, and none a prefix of another.\<close>

definition valid_name :: "string \<Rightarrow> bool" where
  "valid_name u \<longleftrightarrow> is_alphanumeric_string u \<and> food_from_string u = None \<and> ore_from_string u = None"

definition prefix_free :: "string list \<Rightarrow> bool" where
  "prefix_free us \<longleftrightarrow>
     (\<forall>i < length us. \<forall>j < length us. starts_with (us ! j) (us ! i) \<longrightarrow> i = j)"

lemma alphanumeric_not_separator:
  "is_alphanumeric c \<Longrightarrow> c \<noteq> CHR '','' \<and> c \<noteq> CHR '';'' \<and> c \<noteq> CHR 0x0A \<and> c \<noteq> CHR 0x0D"
  by (auto simp: is_alphanumeric_def)

lemma search_lines_find:
  "search_lines ls u =
   (case find (\<lambda>l. starts_with l u) ls of
      None \<Rightarrow> create_empty
    | Some l \<Rightarrow> foldl parse_token create_empty (split_on (CHR '';'') l))"
  by (induction ls) (simp_all add: parse_inventory_string_def)

lemma find_unique:
  "i < length xs \<Longrightarrow> \<forall>j < length xs. P (xs ! j) \<longleftrightarrow> j = i \<Longrightarrow> find P xs = Some (xs ! i)"
  by (auto simp: find_Some_iff)

lemma starts_with_inventory_line:
  assumes "CHR '';'' \<notin> set u"
  shows "starts_with (inventory_line v iv) u \<longleftrightarrow> starts_with v u"
proof (cases "length u \<le> length v")
  case True
  then show ?thesis by (simp add: starts_with_def inventory_line_def)
next
  case False
  have "take (length u) (inventory_line v iv) \<noteq> u"
  proof
    assume eq: "take (length u) (inventory_line v iv) = u"
    have "inventory_line v iv ! length v = CHR '';''" by (simp add: inventory_line_def)
    with False have "u ! length v = CHR '';''"
      by (metis eq not_le nth_take)
    with False assms show False by (metis not_le nth_mem)
  qed
  with False show ?thesis by (auto simp: starts_with_def)
qed

lemma valid_name_chars:
  "valid_name u \<Longrightarrow> CHR '','' \<notin> set u \<and> CHR '';'' \<notin> set u \<and> CHR 0x0A \<notin> set u"
  by (auto simp: valid_name_def is_alphanumeric_string_def list_all_iff dest!: alphanumeric_not_separator)

lemma rust_lines_inventory_file:
  "\<forall>p \<in> set ps. CHR 0x0A \<notin> set (username (account p)) \<Longrightarrow>
   rust_lines (update_inventory_file ps) = map (\<lambda>p. inventory_line (username (account p)) (inventory p)) ps"
  unfolding update_inventory_file_def
  by (rule rust_lines_unlines) (auto simp: inventory_line_no_newline inventory_line_last)

lemma reload_inventory:
  assumes "player_inv p" and "valid_name (username (account p))"
  shows "foldl parse_token create_empty (split_on (CHR '';'') (inventory_line (username (account p)) (inventory p))) =
         (inventory p)\<lparr>foods := replicate 6 None\<rparr>"
proof -
  from assms(1) have wf: "inv_wf (inventory p)" and pk: "packed (ores (inventory p))"
    by (simp_all add: player_inv_def)
  from wf have l: "length (ores (inventory p)) = 20" by (simp add: inv_wf_def)
  have os: "map Some (somes (ores (inventory p))) @ replicate (20 - length (somes (ores (inventory p)))) None =
      ores (inventory p)"
    using pk [unfolded packed_def l] by simp
  from assms(2) have "CHR '';'' \<notin> set (username (account p))"
      and "food_from_string (username (account p)) = None" and "ore_from_string (username (account p)) = None"
    by (simp_all add: valid_name_chars) (simp_all add: valid_name_def)
  with wf have "parse_inventory_string (inventory_line (username (account p)) (inventory p)) =
      Inr \<lparr>ores = ores (inventory p), foods = replicate 6 None\<rparr>"
    by (simp add: inventory_line_roundtrip os)
  then show ?thesis by (simp add: parse_inventory_string_def)
qed

lemma search_own_line:
  assumes pf: "prefix_free (map (\<lambda>p. username (account p)) ps)"
    and names: "\<forall>p \<in> set ps. valid_name (username (account p))"
    and i: "i < length ps"
  shows "find (\<lambda>l. starts_with l (username (account (ps ! i))))
           (map (\<lambda>p. inventory_line (username (account p)) (inventory p)) ps) =
         Some (inventory_line (username (account (ps ! i))) (inventory (ps ! i)))"
proof -
  have nosemi: "CHR '';'' \<notin> set (username (account (ps ! i)))"
    using names i valid_name_chars by (metis nth_mem)
  have "starts_with (inventory_line (username (account (ps ! j))) (inventory (ps ! j))) (username (account (ps ! i)))
        \<longleftrightarrow> j = i" if "j < length ps" for j
  proof -
    have "starts_with (inventory_line (username (account (ps ! j))) (inventory (ps ! j))) (username (account (ps ! i)))
          \<longleftrightarrow> starts_with (username (account (ps ! j))) (username (account (ps ! i)))"
      by (rule starts_with_inventory_line [OF nosemi])
    also have "\<dots> \<longleftrightarrow> j = i"
      using pf i that by (auto simp: prefix_free_def starts_with_def)
    finally show ?thesis .
  qed
  with i have "find (\<lambda>l. starts_with l (username (account (ps ! i))))
      (map (\<lambda>p. inventory_line (username (account p)) (inventory p)) ps) =
    Some (map (\<lambda>p. inventory_line (username (account p)) (inventory p)) ps ! i)"
    by (intro find_unique) auto
  with i show ?thesis by simp
qed

text \<open>Saving the roster and loading it again gives back every account exactly and
  every player's ores in their slots, with empty food slots, full health and depth 1,
  when the names are alphanumeric, are not item tokens and none is a prefix of another.\<close>

lemma save_load_roster:
  assumes inv: "\<forall>p \<in> set ps. player_inv p"
    and names: "\<forall>p \<in> set ps. valid_name (username (account p))"
    and pf: "prefix_free (map (\<lambda>p. username (account p)) ps)"
  shows "load_roster (Some (fst (save_roster ps))) (Some (snd (save_roster ps))) = Inr (map reloaded ps)"
proof -
  have acc: "parse_account_file (Some (update_account_file (map account ps))) = Inr (map account ps)"
    by (rule account_file_roundtrip) (use names valid_name_chars in auto)
  have lines: "rust_lines (update_inventory_file ps) =
      map (\<lambda>p. inventory_line (username (account p)) (inventory p)) ps"
    by (rule rust_lines_inventory_file) (use names valid_name_chars in auto)
  have *: "search_lines (map (\<lambda>p. inventory_line (username (account p)) (inventory p)) ps)
          (username (account (ps ! i))) = (inventory (ps ! i))\<lparr>foods := replicate 6 None\<rparr>"
    if "i < length ps" for i
    using that inv names
    by (simp add: search_lines_find search_own_line [OF pf names that] reload_inventory)
  have "search_lines (map (\<lambda>p. inventory_line (username (account p)) (inventory p)) ps)
          (username (account x)) = (inventory x)\<lparr>foods := replicate 6 None\<rparr>"
    if "x \<in> set ps" for x
  proof -
    from that obtain i where "i < length ps" and "x = ps ! i" by (auto simp: in_set_conv_nth)
    with * show ?thesis by simp
  qed
  then show ?thesis
    by (auto simp: load_roster_def save_roster_def acc search_inventory_file_def lines reloaded_def
        intro!: nth_equalityI)
qed


text \<open>C18: the inventory search matches by prefix: when a player's name extends the name
  of a player saved after them, loading gives the later player the earlier player's ores.\<close>

theorem load_prefix_collision:
  assumes names: "\<forall>r \<in> set (p # qs). valid_name (username (account r))"
    and inv: "player_inv p" and q: "q \<in> set qs"
    and pre: "starts_with (username (account p)) (username (account q))"
  shows "\<exists>rs. load_roster (Some (fst (save_roster (p # qs)))) (Some (snd (save_roster (p # qs)))) =
           Inr (reloaded p # rs) \<and>
         new_player ((inventory p)\<lparr>foods := replicate 6 None\<rparr>) (account q) \<in> set rs"
proof -
  define L where "L = map (\<lambda>r. inventory_line (username (account r)) (inventory r)) (p # qs)"
  have acc: "parse_account_file (Some (update_account_file (map account (p # qs)))) = Inr (map account (p # qs))"
    by (rule account_file_roundtrip) (use names valid_name_chars in auto)
  have lines: "rust_lines (update_inventory_file (p # qs)) = L"
    unfolding L_def by (rule rust_lines_inventory_file) (use names valid_name_chars in auto)
  have first: "search_lines L u = (inventory p)\<lparr>foods := replicate 6 None\<rparr>"
    if "starts_with (username (account p)) u" and "CHR '';'' \<notin> set u" for u
    using that inv names
    by (simp add: L_def search_lines_find starts_with_inventory_line reload_inventory)
  have "CHR '';'' \<notin> set (username (account q))"
    using names q valid_name_chars by auto
  with pre have "search_lines L (username (account q)) = (inventory p)\<lparr>foods := replicate 6 None\<rparr>"
    by (rule first)
  moreover have "search_lines L (username (account p)) = (inventory p)\<lparr>foods := replicate 6 None\<rparr>"
    using names valid_name_chars by (intro first) (auto simp: starts_with_def)
  ultimately show ?thesis
    using q acc lines by (force simp: load_roster_def save_roster_def search_inventory_file_def reloaded_def)
qed

theorem load_prefix_collision_witness:
  "\<exists>rs. load_roster
     (Some (fst (save_roster [new_player \<lparr>ores = Some Diamond # replicate 19 None, foods = replicate 6 None\<rparr>
                                (new_account ''bobby''),
                              new_player create_empty (new_account ''bob'')])))
     (Some (snd (save_roster [new_player \<lparr>ores = Some Diamond # replicate 19 None, foods = replicate 6 None\<rparr>
                                (new_account ''bobby''),
                              new_player create_empty (new_account ''bob'')]))) =
   Inr (reloaded (new_player \<lparr>ores = Some Diamond # replicate 19 None, foods = replicate 6 None\<rparr>
                   (new_account ''bobby'')) # rs) \<and>
   new_player \<lparr>ores = Some Diamond # replicate 19 None, foods = replicate 6 None\<rparr> (new_account ''bob'') \<in> set rs"
proof -
  have "player_inv (new_player \<lparr>ores = Some Diamond # replicate 19 None, foods = replicate 6 None\<rparr>
      (new_account ''bobby''))"
    by (simp add: player_inv_def new_player_def inv_wf_def packed_def)
  moreover have "valid_name ''bobby''" and "valid_name ''bob''"
    by (simp_all add: valid_name_def is_alphanumeric_string_def is_alphanumeric_def
        food_from_string_def ore_from_string_def)
  ultimately show ?thesis
    using load_prefix_collision [of "new_player \<lparr>ores = Some Diamond # replicate 19 None, foods = replicate 6 None\<rparr>
                                (new_account ''bobby'')" "[new_player create_empty (new_account ''bob'')]"
        "new_player create_empty (new_account ''bob'')"]
    by (simp add: new_player_def new_account_def starts_with_def)
qed

end
