(* ===== verification/Session.thy ===== *)
theory Session
  imports Persistence
begin

text \<open>
  The menus of \<open>src/main.rs\<close> as one state machine. Each \<open>read_line\<close> of a menu is one
  step: \<open>step\<close> takes the line read and, for the mining menu, the draws of one \<open>dig\<close>, and
  returns the next game state or the panic the program dies with. The state is the roster
  in memory, the menu the program is in (\<open>screen\<close>, with the index of the selected player
  for the menus below \<open>login_menu\<close>) and the contents of the two record files. Returning
  to the title menu rewrites both files (\<open>back_to_title\<close>), as the body of the loop of
  \<open>main\<close> does after each choice; \<open>wait_for_enter\<close> is a screen of its own because it
  reads a line. \<open>reachable\<close> is the set of states the program can reach from its start.
\<close>

datatype screen =
    Title | No_account | Login | Register | Registered
  | Play nat | Shop nat | Sell nat | Buy nat | Buy_wait nat
  | Mining nat | Eating nat | Eat_wait nat | Eat_done nat
  | Exited

record game =
  roster :: "player list"
  screen :: screen
  account_txt :: "string option"
  inventory_txt :: "string option"

text \<open>The start of \<open>main\<close>: load the roster; a missing account file ends the program with
  its I/O error.\<close>

definition start :: "string option \<Rightarrow> string option \<Rightarrow> io_error + game" where
  "start account_file inventory_file =
     (case load_roster account_file inventory_file of
        Inl e \<Rightarrow> Inl e
      | Inr players \<Rightarrow> Inr \<lparr>roster = players, screen = Title,
                             account_txt = account_file, inventory_txt = inventory_file\<rparr>)"

text \<open>The end of an iteration of the title loop: both files are rewritten from the roster.\<close>

definition back_to_title :: "game \<Rightarrow> game" where
  "back_to_title g =
     g\<lparr>screen := Title, account_txt := Some (fst (save_roster (roster g))),
       inventory_txt := Some (snd (save_roster (roster g)))\<rparr>"

text \<open>The top of the loop of \<open>login_menu\<close>, which sorts the roster before listing it.\<close>

definition enter_login :: "game \<Rightarrow> game" where
  "enter_login g = g\<lparr>roster := login_order (roster g), screen := Login\<rparr>"

definition put_player :: "game \<Rightarrow> nat \<Rightarrow> player \<Rightarrow> screen \<Rightarrow> game" where
  "put_player g i p s = g\<lparr>roster := (roster g)[i := p], screen := s\<rparr>"

definition title_menu :: "game \<Rightarrow> string \<Rightarrow> game" where
  "title_menu g line =
     (let choice = read_choice line in
      if choice = 1 then (if roster g = [] then g\<lparr>screen := No_account\<rparr> else enter_login g)
      else if choice = 2 then g\<lparr>screen := Register\<rparr>
      else if choice = 3 then g\<lparr>screen := Exited\<rparr>
      else back_to_title g)"

definition login_choice :: "game \<Rightarrow> string \<Rightarrow> game" where
  "login_choice g line =
     (let input = read_choice line in
      if input = 0 then back_to_title g
      else if input < 0 then enter_login g
      else if length (roster g) \<le> nat (input - 1) then enter_login g
      else g\<lparr>screen := Play (nat (input - 1))\<rparr>)"

definition register_line :: "game \<Rightarrow> string \<Rightarrow> game" where
  "register_line g line =
     (case register (roster g) line of
        None \<Rightarrow> g
      | Some players \<Rightarrow> g\<lparr>roster := players, screen := Registered\<rparr>)"

definition play_menu :: "game \<Rightarrow> nat \<Rightarrow> string \<Rightarrow> game" where
  "play_menu g i line =
     (let choice = read_choice line in
      if choice = 1 then put_player g i (stop_mining (roster g ! i)) (Mining i)
      else if choice = 2 then g\<lparr>screen := Shop i\<rparr>
      else if choice = 3 then enter_login g
      else g)"

definition shop_menu :: "game \<Rightarrow> nat \<Rightarrow> string \<Rightarrow> game" where
  "shop_menu g i line =
     (let choice = read_choice line in
      if choice = 1 then g\<lparr>screen := Sell i\<rparr>
      else if choice = 2 then g\<lparr>screen := Buy i\<rparr>
      else if choice = 3 then g\<lparr>screen := Play i\<rparr>
      else g)"

definition sell_menu :: "game \<Rightarrow> nat \<Rightarrow> string \<Rightarrow> panic + game" where
  "sell_menu g i line =
     (if read_choice line \<noteq> 1 then Inr (g\<lparr>screen := Shop i\<rparr>)
      else (case sell_all (roster g ! i) of
              Inl e \<Rightarrow> Inl e
            | Inr q \<Rightarrow> Inr (put_player g i q (Sell i))))"

fun buy_screen :: "nat \<Rightarrow> buy_outcome \<Rightarrow> screen" where
  "buy_screen i Upgraded = Buy_wait i"
| "buy_screen i (Refused _) = Buy_wait i"
| "buy_screen i Left_shop = Shop i"
| "buy_screen i _ = Buy i"

definition buy_menu :: "game \<Rightarrow> nat \<Rightarrow> string \<Rightarrow> game" where
  "buy_menu g i line =
     (case buy_item_choice (roster g ! i) (read_choice line) of
        (q, outcome) \<Rightarrow> put_player g i q (buy_screen i outcome))"

definition mining_menu :: "game \<Rightarrow> nat \<Rightarrow> string \<Rightarrow> dig_draws \<Rightarrow> panic + game" where
  "mining_menu g i line d =
     (let choice = read_choice line in
      if choice = 1 then
        (if is_alive (roster g ! i)
         then (case dig (roster g ! i) d of Inl e \<Rightarrow> Inl e | Inr q \<Rightarrow> Inr (put_player g i q (Mining i)))
         else Inr g)
      else if choice = 2 then Inr (g\<lparr>screen := Eating i\<rparr>)
      else if choice = 3 then Inr (g\<lparr>screen := Play i\<rparr>)
      else Inr g)"

definition eat_menu :: "game \<Rightarrow> nat \<Rightarrow> string \<Rightarrow> panic + game" where
  "eat_menu g i line =
     (let input = read_choice line in
      if input = 0 then Inr (g\<lparr>screen := Eat_done i\<rparr>)
      else if can_eat (roster g ! i) input then
        (case eat (roster g ! i) input of Inl e \<Rightarrow> Inl e | Inr q \<Rightarrow> Inr (put_player g i q (Eat_wait i)))
      else Inr (g\<lparr>screen := Eat_wait i\<rparr>))"

fun step :: "game \<Rightarrow> string \<Rightarrow> dig_draws \<Rightarrow> panic + game" where
  "step g line d =
     (case screen g of
        Title \<Rightarrow> Inr (title_menu g line)
      | No_account \<Rightarrow> Inr (back_to_title g)
      | Login \<Rightarrow> Inr (login_choice g line)
      | Register \<Rightarrow> Inr (register_line g line)
      | Registered \<Rightarrow> Inr (back_to_title g)
      | Play i \<Rightarrow> Inr (play_menu g i line)
      | Shop i \<Rightarrow> Inr (shop_menu g i line)
      | Sell i \<Rightarrow> sell_menu g i line
      | Buy i \<Rightarrow> Inr (buy_menu g i line)
      | Buy_wait i \<Rightarrow> Inr (g\<lparr>screen := Buy i\<rparr>)
      | Mining i \<Rightarrow> mining_menu g i line d
      | Eating i \<Rightarrow> eat_menu g i line
      | Eat_wait i \<Rightarrow> Inr (g\<lparr>screen := Eating i\<rparr>)
      | Eat_done i \<Rightarrow> Inr (g\<lparr>screen := Mining i\<rparr>)
      | Exited \<Rightarrow> Inr g)"

text \<open>A session: the lines read, each with the draws of the \<open>dig\<close> it may trigger.\<close>

primrec run :: "game \<Rightarrow> (string \<times> dig_draws) list \<Rightarrow> panic + game" where
  "run g [] = Inr g"
| "run g (x # xs) = (case step g (fst x) (snd x) of Inl e \<Rightarrow> Inl e | Inr g' \<Rightarrow> run g' xs)"

inductive reachable :: "game \<Rightarrow> bool" where
  init: "start af ivf = Inr g \<Longrightarrow> reachable g"
| step: "reachable g \<Longrightarrow> step g line d = Inr g' \<Longrightarrow> reachable g'"

fun screen_player :: "screen \<Rightarrow> nat option" where
  "screen_player (Play i) = Some i"
| "screen_player (Shop i) = Some i"
| "screen_player (Sell i) = Some i"
| "screen_player (Buy i) = Some i"
| "screen_player (Buy_wait i) = Some i"
| "screen_player (Mining i) = Some i"
| "screen_player (Eating i) = Some i"
| "screen_player (Eat_wait i) = Some i"
| "screen_player (Eat_done i) = Some i"
| "screen_player _ = None"

definition game_inv :: "game \<Rightarrow> bool" where
  "game_inv g \<longleftrightarrow>
     (\<forall>p \<in> set (roster g). player_inv p) \<and>
     (case screen_player (screen g) of None \<Rightarrow> True | Some i \<Rightarrow> i < length (roster g))"

text \<open>Lines that lead from each menu back to the title menu: \<open>Return\<close>/\<open>Back\<close> at each level,
  any line at a \<open>wait_for_enter\<close>, 0 at the login and eat prompts, and at the registration
  prompt a valid name (the loop of \<open>register_menu\<close> has no other way out).\<close>

fun exit_inputs :: "screen \<Rightarrow> string list" where
  "exit_inputs Title = [''0'']"
| "exit_inputs No_account = [[]]"
| "exit_inputs Login = [''0'']"
| "exit_inputs Register = [''guest'', []]"
| "exit_inputs Registered = [[]]"
| "exit_inputs (Play i) = [''3'', ''0'']"
| "exit_inputs (Shop i) = [''3'', ''3'', ''0'']"
| "exit_inputs (Sell i) = [''2'', ''3'', ''3'', ''0'']"
| "exit_inputs (Buy i) = [''5'', ''3'', ''3'', ''0'']"
| "exit_inputs (Buy_wait i) = [[], ''5'', ''3'', ''3'', ''0'']"
| "exit_inputs (Mining i) = [''3'', ''3'', ''0'']"
| "exit_inputs (Eating i) = [''0'', [], ''3'', ''3'', ''0'']"
| "exit_inputs (Eat_wait i) = [[], ''0'', [], ''3'', ''3'', ''0'']"
| "exit_inputs (Eat_done i) = [[], ''3'', ''3'', ''0'']"
| "exit_inputs Exited = []"

text \<open>The range the specification gives the pickaxe level, for every player of a roster.\<close>

definition levels_ok :: "player list \<Rightarrow> bool" where
  "levels_ok ps \<longleftrightarrow> (\<forall>p \<in> set ps. 1 \<le> pickaxe_level (account p) \<and> pickaxe_level (account p) \<le> 3)"

subsection \<open>The invariant of the session\<close>

lemma parse_token_inv:
  "inv_wf iv \<Longrightarrow> packed (ores iv) \<Longrightarrow> inv_wf (parse_token iv t) \<and> packed (ores (parse_token iv t))"
  by (auto simp: parse_token_def push_food_def push_ore_def inv_wf_def packed_push_slot split: option.splits)

lemma foldl_parse_token_inv:
  "inv_wf iv \<Longrightarrow> packed (ores iv) \<Longrightarrow>
   inv_wf (foldl parse_token iv ts) \<and> packed (ores (foldl parse_token iv ts))"
  by (induction ts arbitrary: iv) (simp_all add: parse_token_inv)

lemma create_empty_inv [simp]: "inv_wf create_empty" "packed (ores create_empty)"
  by (simp_all add: inv_wf_def create_empty_def packed_replicate_None)

lemma search_lines_inv: "inv_wf (search_lines ls u) \<and> packed (ores (search_lines ls u))"
  by (induction ls) (simp_all add: parse_inventory_string_def foldl_parse_token_inv)

lemma player_inv_loaded:
  "player_inv (new_player (case search_inventory_file f u of Inr iv \<Rightarrow> iv | Inl _ \<Rightarrow> create_empty) a)"
  by (rule player_inv_new) (simp_all add: search_inventory_file_def search_lines_inv split: option.splits)

lemma start_game_inv: "start af ivf = Inr g \<Longrightarrow> game_inv g"
  by (auto simp: start_def load_roster_def game_inv_def player_inv_loaded split: sum.splits)

lemma player_inv_sell_all [inv_rules]: "player_inv p \<Longrightarrow> sell_all p = Inr q \<Longrightarrow> player_inv q"
  by (auto simp: sell_all_eq player_inv_def purge_inventory_def inv_wf_def split: sum.splits)

lemma player_inv_push_food [inv_rules]:
  "player_inv p \<Longrightarrow> player_inv (p\<lparr>inventory := push_food (inventory p) f\<rparr>)"
  by (simp add: player_inv_def push_food_def inv_wf_def)

lemma player_inv_buy [inv_rules]: "player_inv p \<Longrightarrow> player_inv (fst (buy_item_choice p c))"
  by (auto simp: buy_item_choice_def split: sum.splits buy_item.splits
      intro!: player_inv_upgrade player_inv_push_food dest: player_inv_spend)

lemma player_inv_dig [inv_rules]: "player_inv p \<Longrightarrow> dig p d = Inr q \<Longrightarrow> player_inv q"
  by (auto simp: dig_def intro: player_inv_mine_ore player_inv_take_damage
      dest: player_inv_go_deeper split: sum.splits dig_event.splits)

lemma game_inv_put:
  "game_inv g \<Longrightarrow> i < length (roster g) \<Longrightarrow> player_inv p \<Longrightarrow> screen_player s = Some i \<Longrightarrow>
   game_inv (put_player g i p s)"
  by (auto simp: game_inv_def put_player_def dest: set_update_subset_insert [THEN subsetD])

lemma game_inv_screen:
  "game_inv g \<Longrightarrow> (case screen_player s of None \<Rightarrow> True | Some i \<Rightarrow> i < length (roster g)) \<Longrightarrow>
   game_inv (g\<lparr>screen := s\<rparr>)"
  by (simp add: game_inv_def split: option.splits)

lemma game_inv_back_to_title: "game_inv g \<Longrightarrow> game_inv (back_to_title g)"
  by (simp add: game_inv_def back_to_title_def)

lemma game_inv_enter_login: "game_inv g \<Longrightarrow> game_inv (enter_login g)"
proof -
  have "set (login_order ps) = set ps" for ps
    by (metis login_order_sort_key mset_sort set_mset_mset)
  then show "game_inv g \<Longrightarrow> game_inv (enter_login g)"
    by (simp add: game_inv_def enter_login_def)
qed

lemmas game_inv_rules = game_inv_put game_inv_screen game_inv_back_to_title game_inv_enter_login

lemma game_inv_index: "game_inv g \<Longrightarrow> screen_player (screen g) = Some i \<Longrightarrow> i < length (roster g)"
  by (simp add: game_inv_def)

lemma game_inv_players: "game_inv g \<Longrightarrow> i < length (roster g) \<Longrightarrow> player_inv (roster g ! i)"
  by (simp add: game_inv_def)

lemma game_inv_title: "game_inv g \<Longrightarrow> game_inv (title_menu g line)"
  by (simp add: title_menu_def Let_def game_inv_rules)

lemma game_inv_login: "game_inv g \<Longrightarrow> game_inv (login_choice g line)"
  by (auto simp: login_choice_def Let_def game_inv_rules not_le intro!: game_inv_screen)

lemma game_inv_register: "game_inv g \<Longrightarrow> game_inv (register_line g line)"
  by (auto simp: register_line_def register_def Let_def game_inv_def player_inv_new split: if_splits option.splits)

lemma game_inv_play:
  "game_inv g \<Longrightarrow> i < length (roster g) \<Longrightarrow> game_inv (play_menu g i line)"
  by (simp add: play_menu_def Let_def game_inv_rules game_inv_players player_inv_stop_mining)

lemma game_inv_shop:
  "game_inv g \<Longrightarrow> i < length (roster g) \<Longrightarrow> game_inv (shop_menu g i line)"
  by (simp add: shop_menu_def Let_def game_inv_rules)

lemma game_inv_sell:
  assumes "game_inv g" and "i < length (roster g)" and "sell_menu g i line = Inr g'"
  shows "game_inv g'"
  using assms player_inv_sell_all [OF game_inv_players [OF assms(1,2)]]
  by (auto simp: sell_menu_def game_inv_rules split: if_splits sum.splits intro!: game_inv_put)

lemma buy_screen_player: "screen_player (buy_screen i out) = Some i"
  by (cases out) simp_all

lemma buy_screen_not_title [simp]: "buy_screen i out \<noteq> Title"
  by (cases out) simp_all

lemma game_inv_buy:
  "game_inv g \<Longrightarrow> i < length (roster g) \<Longrightarrow> game_inv (buy_menu g i line)"
  using player_inv_buy [of "roster g ! i" "read_choice line"]
  by (auto simp: buy_menu_def game_inv_players buy_screen_player intro!: game_inv_put split: prod.splits)

lemma game_inv_mining:
  assumes "game_inv g" and "i < length (roster g)" and "mining_menu g i line d = Inr g'"
  shows "game_inv g'"
  using assms player_inv_dig [OF game_inv_players [OF assms(1,2)]]
  by (auto simp: mining_menu_def Let_def game_inv_rules split: if_splits sum.splits intro!: game_inv_put)

lemma game_inv_eat:
  assumes "game_inv g" and "i < length (roster g)" and "eat_menu g i line = Inr g'"
  shows "game_inv g'"
  using assms player_inv_eat [OF game_inv_players [OF assms(1,2)]]
  by (auto simp: eat_menu_def Let_def game_inv_rules split: if_splits sum.splits intro!: game_inv_put)

lemma game_inv_step: "game_inv g \<Longrightarrow> step g line d = Inr g' \<Longrightarrow> game_inv g'"
proof (cases "screen g")
  case (Play i)
  then show "game_inv g \<Longrightarrow> step g line d = Inr g' \<Longrightarrow> game_inv g'"
    using game_inv_index [of g i] by (auto simp: game_inv_play)
qed (use game_inv_index [of g] in \<open>auto simp: game_inv_rules game_inv_title game_inv_login game_inv_register
      game_inv_shop game_inv_buy intro: game_inv_sell game_inv_mining game_inv_eat\<close>)

lemma read_choice_simps [simp]:
  "read_choice ''0'' = 0" "read_choice ''1'' = 1" "read_choice ''2'' = 2" "read_choice ''3'' = 3"
  "read_choice ''4'' = 4" "read_choice ''5'' = 5" "read_choice [] = -1"
  by (simp_all add: read_choice_def parse_i32_def trim_def is_whitespace_def is_ascii_digit_def
      digits_value_def digit_value_def)

subsection \<open>Descending\<close>

lemma mine_ore_no_success: "mine_ore p (\<lambda>_. (False, r)) = p"
  by (simp add: mine_ore_def upt_rec split: prod.splits)

lemma dig_descend:
  "unat (depth p) < 255 \<Longrightarrow>
   dig p \<lparr>event1 = 1, event2 = 100, event3 = 100, ore_roll = \<lambda>_. (False, 100)\<rparr> = Inr (p\<lparr>depth := depth p + 1\<rparr>)"
  by (simp add: dig_def dig_event_of_def try_starting_event_def go_deeper_ok mine_ore_no_success)

lemma dig_descend_255:
  "depth p = 255 \<Longrightarrow> dig p \<lparr>event1 = 1, event2 = 100, event3 = 100, ore_roll = \<lambda>_. (False, 100)\<rparr> = Inl Add_overflow"
  by (simp add: dig_def dig_event_of_def try_starting_event_def go_deeper_255)

lemma run_descend:
  assumes "screen g = Mining i" and "i < length (roster g)" and "is_alive (roster g ! i)"
    and "unat (depth (roster g ! i)) + k = 255"
  shows "run g (replicate (Suc k) (''1'', \<lparr>event1 = 1, event2 = 100, event3 = 100, ore_roll = \<lambda>_. (False, 100)\<rparr>)) =
         Inl Add_overflow"
  using assms
proof (induction k arbitrary: g)
  case 0
  then have "unat (depth (roster g ! i)) = 255" by simp
  then have "depth (roster g ! i) = 255"
    by (metis word_of_nat_unat of_nat_numeral)
  with 0 show ?case by (simp add: mining_menu_def dig_descend_255)
next
  case (Suc k)
  let ?p = "roster g ! i"
  from Suc.prems have lt: "unat (depth ?p) < 255" by simp
  let ?g = "put_player g i (?p\<lparr>depth := depth ?p + 1\<rparr>) (Mining i)"
  have "step g ''1'' \<lparr>event1 = 1, event2 = 100, event3 = 100, ore_roll = \<lambda>_. (False, 100)\<rparr> = Inr ?g"
    using Suc.prems lt by (simp add: mining_menu_def dig_descend)
  moreover have "run ?g (replicate (Suc k) (''1'', \<lparr>event1 = 1, event2 = 100, event3 = 100, ore_roll = \<lambda>_. (False, 100)\<rparr>)) =
      Inl Add_overflow"
    using Suc.prems lt go_deeper_ok [of ?p]
    by (intro Suc.IH) (simp_all add: put_player_def is_alive_def)
  ultimately show ?case by simp
qed

subsection \<open>Saving\<close>

lemma step_title_saves:
  "step g line d = Inr g' \<Longrightarrow> screen g' = Title \<Longrightarrow>
   account_txt g' = Some (fst (save_roster (roster g'))) \<and> inventory_txt g' = Some (snd (save_roster (roster g')))"
  by (cases "screen g")
    (auto simp: back_to_title_def title_menu_def login_choice_def enter_login_def register_line_def
      play_menu_def shop_menu_def sell_menu_def buy_menu_def mining_menu_def eat_menu_def put_player_def Let_def
      buy_screen_player split: if_splits sum.splits option.splits prod.splits buy_outcome.splits)

subsection \<open>Properties of the session\<close>

text \<open>C4: every state the program reaches from its start satisfies the invariant: each
  player's arrays have their sizes, the ores are packed, health is at most 100 and depth at
  least 1, and the menu's player index is inside the roster.\<close>

theorem reachable_game_inv: "reachable g \<Longrightarrow> game_inv g"
  by (induction rule: reachable.induct) (auto intro: start_game_inv game_inv_step)

theorem reachable_game_inv_witness:
  "game_inv \<lparr>roster = [new_player create_empty (new_account ''ann'')], screen = Play 0,
             account_txt = Some (''ann,100,1'' @ [CHR 0x0A]), inventory_txt = None\<rparr>"
proof -
  let ?acc = "Some (''ann,100,1'' @ [CHR 0x0A])"
  let ?d = "\<lparr>event1 = 1, event2 = 1, event3 = 1, ore_roll = \<lambda>_. (False, 1)\<rparr>"
  let ?g0 = "\<lparr>roster = [new_player create_empty (new_account ''ann'')], screen = Title,
             account_txt = ?acc, inventory_txt = None\<rparr>"
  have "start ?acc None = Inr ?g0"
    by (simp add: start_def load_roster_def parse_account_file_def rust_lines_def strip_cr_def
        parse_account_string_def Let_def parse_uint_def trim_def is_whitespace_def is_ascii_digit_def
        digits_value_def digit_value_def new_account_def search_inventory_file_def)
  then have r0: "reachable ?g0" by (rule reachable.init)
  have "step ?g0 ''1'' ?d = Inr (?g0\<lparr>screen := Login\<rparr>)"
    by (simp add: title_menu_def enter_login_def login_order_def)
  with r0 have r1: "reachable (?g0\<lparr>screen := Login\<rparr>)" by (rule reachable.step)
  have "step (?g0\<lparr>screen := Login\<rparr>) ''1'' ?d = Inr (?g0\<lparr>screen := Play 0\<rparr>)"
    by (simp add: login_choice_def)
  with r1 have "reachable (?g0\<lparr>screen := Play 0\<rparr>)" by (rule reachable.step)
  then show ?thesis by (simp add: reachable_game_inv)
qed

text \<open>C5: the \<open>u8\<close> depth overflow is reachable: from the game menu, answering 1 to
  every prompt enters the mine and, when every event draw is 1, descends at each dig; the
  255th descent overflows the depth and the program panics, whatever the player's
  inventory and money.\<close>

theorem depth_overflow_reachable:
  assumes "screen g = Play i" and "i < length (roster g)" and "is_alive (roster g ! i)"
  shows "run g (replicate 256 (''1'', \<lparr>event1 = 1, event2 = 100, event3 = 100, ore_roll = \<lambda>_. (False, 100)\<rparr>)) =
         Inl Add_overflow"
proof -
  let ?D = "\<lparr>event1 = 1, event2 = 100, event3 = 100, ore_roll = \<lambda>_. (False, 100)\<rparr>"
  let ?g = "put_player g i (stop_mining (roster g ! i)) (Mining i)"
  have "step g ''1'' ?D = Inr ?g" using assms(1) by (simp add: play_menu_def)
  moreover have "run ?g (replicate 255 (''1'', ?D)) = Inl Add_overflow"
    using run_descend [of ?g i 254] assms(2,3)
    by (simp add: put_player_def stop_mining_def is_alive_def numeral_eq_Suc)
  ultimately show ?thesis by (simp add: numeral_eq_Suc)
qed

theorem depth_overflow_reachable_witness:
  "run \<lparr>roster = [new_player create_empty (new_account ''ann'')], screen = Play 0, account_txt = None,
        inventory_txt = None\<rparr>
     (replicate 256 (''1'', \<lparr>event1 = 1, event2 = 100, event3 = 100, ore_roll = \<lambda>_. (False, 100)\<rparr>)) =
   Inl Add_overflow"
  using depth_overflow_reachable [of "\<lparr>roster = [new_player create_empty (new_account ''ann'')], screen = Play 0,
      account_txt = None, inventory_txt = None\<rparr>" 0]
  by (simp add: new_player_def is_alive_def)

text \<open>C22: entering the mine resets the depth to 1 and leaves health as it was, so a player
  who comes back with no health cannot dig: the dig choice then changes nothing.\<close>

theorem mine_keeps_health:
  assumes "screen g = Play i" and "i < length (roster g)"
  shows "\<exists>g'. step g ''1'' d = Inr g' \<and> screen g' = Mining i \<and> depth (roster g' ! i) = 1 \<and>
              health (roster g' ! i) = health (roster g ! i) \<and>
              (health (roster g ! i) = 0 \<longrightarrow> step g' ''1'' d' = Inr g')"
  using assms by (simp add: play_menu_def put_player_def stop_mining_def mining_menu_def is_alive_def)

theorem mine_keeps_health_witness:
  "health (roster \<lparr>roster = [(new_player create_empty (new_account ''ann''))\<lparr>health := 0\<rparr>],
                    screen = Play 0, account_txt = None, inventory_txt = None\<rparr> ! 0) = 0 \<and>
   (\<exists>g'. step \<lparr>roster = [(new_player create_empty (new_account ''ann''))\<lparr>health := 0\<rparr>],
                screen = Play 0, account_txt = None, inventory_txt = None\<rparr>
              ''1'' \<lparr>event1 = 1, event2 = 1, event3 = 1, ore_roll = \<lambda>_. (True, 1)\<rparr> = Inr g' \<and>
         screen g' = Mining 0 \<and> depth (roster g' ! 0) = 1 \<and>
         health (roster g' ! 0) =
           health (roster \<lparr>roster = [(new_player create_empty (new_account ''ann''))\<lparr>health := 0\<rparr>],
                           screen = Play 0, account_txt = None, inventory_txt = None\<rparr> ! 0) \<and>
         (health (roster \<lparr>roster = [(new_player create_empty (new_account ''ann''))\<lparr>health := 0\<rparr>],
                          screen = Play 0, account_txt = None, inventory_txt = None\<rparr> ! 0) = 0 \<longrightarrow>
          step g' ''1'' \<lparr>event1 = 1, event2 = 1, event3 = 1, ore_roll = \<lambda>_. (True, 1)\<rparr> = Inr g'))"
  (is "?dead \<and> ?run")
proof
  show ?dead by simp
  show ?run by (rule mine_keeps_health) simp_all
qed

subsection \<open>Getting back to the title menu\<close>

lemma run_append: "run g (xs @ ys) = (case run g xs of Inl e \<Rightarrow> Inl e | Inr g' \<Rightarrow> run g' ys)"
  by (induction xs arbitrary: g) (simp_all split: sum.splits)

lemma buy_choice_5: "buy_item_choice p 5 = (p, Left_shop)"
  by (simp add: buy_item_choice_def buy_match_def)

lemma register_guest: "register ps ''guest'' = Some (ps @ [new_player create_empty (new_account ''guest'')])"
  by (simp add: register_def Let_def trim_def is_whitespace_def is_alphanumeric_string_def is_alphanumeric_def)

lemmas exit_simps = play_menu_def shop_menu_def sell_menu_def buy_menu_def mining_menu_def eat_menu_def
  login_choice_def register_line_def enter_login_def back_to_title_def put_player_def buy_choice_5
  register_guest Let_def

text \<open>C6: the program can always get back to the title menu without a panic, and arriving
  there saves the roster: from every menu but the exit, the lines of \<open>exit_inputs\<close> lead to
  the title menu with both files rewritten from the roster, whatever the draws.\<close>

theorem title_always_reachable:
  assumes "screen g \<noteq> Exited"
  shows "\<exists>g'. run g (map (\<lambda>l. (l, d)) (exit_inputs (screen g))) = Inr g' \<and> screen g' = Title \<and>
              account_txt g' = Some (fst (save_roster (roster g'))) \<and>
              inventory_txt g' = Some (snd (save_roster (roster g')))"
  using assms by (cases "screen g") (simp_all add: exit_simps title_menu_def)

theorem title_always_reachable_witness:
  "\<exists>g'. run \<lparr>roster = [new_player create_empty (new_account ''ann'')], screen = Sell 0,
               account_txt = None, inventory_txt = None\<rparr>
            (map (\<lambda>l. (l, \<lparr>event1 = 1, event2 = 1, event3 = 1, ore_roll = \<lambda>_. (True, 1)\<rparr>)) (exit_inputs (Sell 0))) =
          Inr g' \<and> screen g' = Title \<and>
        account_txt g' = Some (fst (save_roster (roster g'))) \<and>
        inventory_txt g' = Some (snd (save_roster (roster g')))"
  using title_always_reachable [of "\<lparr>roster = [new_player create_empty (new_account ''ann'')], screen = Sell 0,
      account_txt = None, inventory_txt = None\<rparr>" "\<lparr>event1 = 1, event2 = 1, event3 = 1, ore_roll = \<lambda>_. (True, 1)\<rparr>"]
  by simp

lemma length_login_order [simp]: "length (login_order ps) = length ps"
  by (simp add: login_order_sort_key)

text \<open>C21: choosing Continue and then entry \<open>n\<close> of the listed roster plays the \<open>n\<close>-th
  player of the roster sorted by \<open>login_menu\<close>, which is the order the menu lists.\<close>

theorem login_selects:
  assumes "screen g = Title" and "roster g \<noteq> []" and "1 \<le> n" and "n \<le> length (roster g)"
    and "n < 2 ^ 31"
  shows "run g [(''1'', d), (show_nat n, d)] =
         Inr (g\<lparr>roster := login_order (roster g), screen := Play (n - 1)\<rparr>)"
  using assms by (simp add: title_menu_def enter_login_def login_choice_def read_choice_show_nat nat_diff_distrib')

theorem login_selects_witness:
  "run \<lparr>roster = [new_player create_empty (new_account ''ann''),
                  new_player create_empty ((new_account ''bob'')\<lparr>money := 300\<rparr>)], screen = Title,
        account_txt = None, inventory_txt = None\<rparr>
     [(''1'', \<lparr>event1 = 1, event2 = 1, event3 = 1, ore_roll = \<lambda>_. (True, 1)\<rparr>),
      (show_nat 1, \<lparr>event1 = 1, event2 = 1, event3 = 1, ore_roll = \<lambda>_. (True, 1)\<rparr>)] =
   Inr \<lparr>roster = [new_player create_empty ((new_account ''bob'')\<lparr>money := 300\<rparr>),
                  new_player create_empty (new_account ''ann'')], screen = Play 0,
        account_txt = None, inventory_txt = None\<rparr>"
proof -
  have "login_order [new_player create_empty (new_account ''ann''),
                     new_player create_empty ((new_account ''bob'')\<lparr>money := 300\<rparr>)] =
        [new_player create_empty ((new_account ''bob'')\<lparr>money := 300\<rparr>),
         new_player create_empty (new_account ''ann'')]"
    by (simp add: login_order_def player_cmp_def cmp_u32_def new_player_def new_account_def)
  then show ?thesis
    using login_selects [of "\<lparr>roster = [new_player create_empty (new_account ''ann''),
                  new_player create_empty ((new_account ''bob'')\<lparr>money := 300\<rparr>)], screen = Title,
        account_txt = None, inventory_txt = None\<rparr>" 1]
    by simp
qed

text \<open>C31: a missing account file ends the program at start-up with the I/O error, while a
  missing inventory file only gives every loaded account the empty inventory.\<close>

theorem start_missing_files:
  "start None ivf = Inl Not_found \<and>
   start (Some c) None =
     Inr \<lparr>roster = map (new_player create_empty) (collect_accounts (rust_lines c)), screen = Title,
          account_txt = Some c, inventory_txt = None\<rparr>"
  by (simp add: start_def load_roster_def parse_account_file_def search_inventory_file_def)

subsection \<open>The pickaxe level\<close>

lemma level_sell_all: "sell_all p = Inr q \<Longrightarrow> pickaxe_level (account q) = pickaxe_level (account p)"
  by (auto simp: sell_all_eq purge_inventory_def split: sum.splits)

lemma level_dig: "dig p d = Inr q \<Longrightarrow> pickaxe_level (account q) = pickaxe_level (account p)"
  by (auto simp: dig_def mine_ore_eq go_deeper_def take_damage_def Let_def
      split: sum.splits dig_event.splits prod.splits)

lemma level_eat: "eat p n = Inr q \<Longrightarrow> pickaxe_level (account q) = pickaxe_level (account p)"
  by (auto simp: eat_def Let_def eat_heal_case heal_def split: if_splits option.splits sum.splits)

lemma level_spend: "spend p a = Inr q \<Longrightarrow> pickaxe_level (account q) = pickaxe_level (account p)"
  by (auto simp: spend_def split: if_splits)

lemma level_buy:
  "1 \<le> pickaxe_level (account p) \<and> pickaxe_level (account p) \<le> 3 \<Longrightarrow>
   1 \<le> pickaxe_level (account (fst (buy_item_choice p c))) \<and> pickaxe_level (account (fst (buy_item_choice p c))) \<le> 3"
  by (auto simp: buy_item_choice_def upgrade_pickaxe_def is_pickaxe_maxed_def push_food_def word_le_nat_alt
      word_less_nat_alt unat_add_no_wrap split: sum.splits buy_item.splits dest!: level_spend)

lemma levels_ok_update: "levels_ok ps \<Longrightarrow> 1 \<le> pickaxe_level (account p) \<and> pickaxe_level (account p) \<le> 3 \<Longrightarrow>
  levels_ok (ps[i := p])"
  by (auto simp: levels_ok_def dest: set_update_subset_insert [THEN subsetD])

lemma levels_ok_nth: "levels_ok ps \<Longrightarrow> i < length ps \<Longrightarrow>
  1 \<le> pickaxe_level (account (ps ! i)) \<and> pickaxe_level (account (ps ! i)) \<le> 3"
  by (simp add: levels_ok_def)

lemma set_login_order [simp]: "set (login_order ps) = set ps"
  by (simp add: login_order_sort_key)

lemma levels_ok_put:
  "levels_ok (roster g) \<Longrightarrow> i < length (roster g) \<Longrightarrow>
   pickaxe_level (account q) = pickaxe_level (account (roster g ! i)) \<Longrightarrow> levels_ok (roster (put_player g i q s))"
  by (metis levels_ok_nth levels_ok_update put_player_def game.select_convs(1) game.surjective game.update_convs(1,2))

text \<open>C7: no menu step takes a pickaxe level out of the range 1 to 3 of the specification:
  only the upgrade changes it, and only below 3.\<close>

theorem step_levels_ok:
  assumes "game_inv g" and "levels_ok (roster g)" and "step g line d = Inr g'"
  shows "levels_ok (roster g')"
proof (cases "screen g")
  case (Buy i)
  with assms have i: "i < length (roster g)" by (simp add: game_inv_def)
  have "1 \<le> pickaxe_level (account (fst (buy_item_choice (roster g ! i) (read_choice line)))) \<and>
        pickaxe_level (account (fst (buy_item_choice (roster g ! i) (read_choice line)))) \<le> 3"
    by (rule level_buy [OF levels_ok_nth [OF assms(2) i]])
  with Buy assms show ?thesis
    by (auto simp: buy_menu_def put_player_def split: prod.splits intro!: levels_ok_update)
next
  case (Play i)
  with assms have i: "i < length (roster g)" by (simp add: game_inv_def)
  show ?thesis
  proof (cases "read_choice line = 1")
    case True
    with Play assms i show ?thesis by (auto simp: play_menu_def stop_mining_def intro!: levels_ok_put)
  next
    case False
    with Play assms show ?thesis
      by (auto simp: play_menu_def Let_def enter_login_def levels_ok_def split: if_splits)
  qed
next
  case (Sell i)
  with assms have "i < length (roster g)" by (simp add: game_inv_def)
  with Sell assms show ?thesis
    by (auto simp: sell_menu_def split: if_splits sum.splits intro!: levels_ok_put dest: level_sell_all)
next
  case (Mining i)
  with assms have "i < length (roster g)" by (simp add: game_inv_def)
  with Mining assms show ?thesis
    by (auto simp: mining_menu_def Let_def split: if_splits sum.splits intro!: levels_ok_put dest: level_dig)
next
  case (Eating i)
  with assms have "i < length (roster g)" by (simp add: game_inv_def)
  with Eating assms show ?thesis
    by (auto simp: eat_menu_def Let_def split: if_splits sum.splits intro!: levels_ok_put dest: level_eat)
qed (use assms in \<open>auto simp: title_menu_def login_choice_def register_line_def register_def back_to_title_def
      enter_login_def shop_menu_def Let_def levels_ok_def new_player_def new_account_def
      split: if_splits option.splits\<close>)

theorem step_levels_ok_witness:
  "levels_ok (roster (buy_menu \<lparr>roster = [new_player create_empty ((new_account ''ann'')\<lparr>money := 600, pickaxe_level := 2\<rparr>)],
                                 screen = Buy 0, account_txt = None, inventory_txt = None\<rparr> 0 ''4''))"
proof -
  let ?g = "\<lparr>roster = [new_player create_empty ((new_account ''ann'')\<lparr>money := 600, pickaxe_level := 2\<rparr>)],
             screen = Buy 0, account_txt = None, inventory_txt = None\<rparr>"
  have "game_inv ?g" by (simp add: game_inv_def player_inv_new)
  moreover have "levels_ok (roster ?g)" by (simp add: levels_ok_def new_player_def new_account_def)
  moreover have "step ?g ''4'' \<lparr>event1 = 1, event2 = 1, event3 = 1, ore_roll = \<lambda>_. (True, 1)\<rparr> = Inr (buy_menu ?g 0 ''4'')"
    by simp
  ultimately show ?thesis by (rule step_levels_ok)
qed

end
