(* ===== verification/Spec2Isabelle.thy ===== *)
theory Spec2Isabelle
  imports Session
begin

text \<open>
  \<^bold>\<open>A verification development of text_craft.\<close>

  text_craft (\<open>src/\<close>) is a single-player text game in Rust. Accounts hold a name, a
  \<open>u32\<close> balance and a \<open>u8\<close> pickaxe level (\<open>src/account/mod.rs\<close>); an inventory holds 20
  ore slots and 6 food slots (\<open>src/inventory/mod.rs\<close>); a player owns one of each and has
  a transient \<open>u8\<close> health and depth, with the operations the game performs on them
  (\<open>src/player/mod.rs\<close>). \<open>src/main.rs\<close> loads every account with the first inventory
  line that starts with its name, then runs nested menu loops that read one line at a
  time (title, login, game, shop, sell, buy, mine, eat) and call those operations; after
  every cycle of the title menu it rewrites both record files from the roster in memory.

  \<^bold>\<open>Theories.\<close>
  \<^item> \<open>Prelude\<close>: the \<open>u8\<close>/\<open>u32\<close> types, Rust's debug-build \<open>+\<close> (\<open>rust_add\<close>, a panic on
    overflow) and \<open>overflowing_sub\<close>, the panics and I/O errors as datatypes, the
    occupied-slot view \<open>somes\<close> of an \<open>Option\<close> array and the \<open>packed\<close> shape, with the
    named collections \<open>slot_simps\<close>, \<open>inv_rules\<close> and \<open>word_range\<close>.
  \<^item> \<open>Rust_Str\<close>: the standard-library semantics the program calls on strings
    (\<open>trim\<close>, \<open>split\<close>, \<open>BufRead::lines\<close>, \<open>starts_with\<close>, \<open>is_alphanumeric\<close>, integer
    \<open>FromStr\<close> and \<open>Display\<close>), on code points below 256, with the round trip of the
    decimal printer and parser and of \<open>lines\<close> over newline-terminated lines.
  \<^item> \<open>Items\<close>: \<open>Ore\<close> and \<open>Food\<close> with \<open>to_string\<close>/\<open>from_string\<close>; both types are
    instances of the class \<open>enum\<close>.
  \<^item> \<open>Account\<close>: the record \<open>account\<close>, \<open>new_account\<close>, \<open>parse_account_string\<close>,
    \<open>parse_account_file\<close> (a file is its content, \<open>None\<close> when missing) and
    \<open>update_account_file\<close> (returns the written content), with the round trip of a line
    and of the whole file.
  \<^item> \<open>Inventory\<close>: the record \<open>inventory\<close>, \<open>create_empty\<close>, the first-free-slot loop
    \<open>push_slot\<close> behind \<open>push_food\<close>/\<open>push_ore\<close>, the listings, the line parser, the
    prefix search of the inventory file and the line its writer emits.
  \<^item> \<open>Player\<close>: the record \<open>player\<close> and every method of \<open>impl Player\<close>, the free
    function \<open>mine\<close>, the comparison traits as \<open>player_eq\<close>/\<open>player_cmp\<close>, and the player
    invariant \<open>player_inv\<close> with one preservation lemma per method (collection
    \<open>inv_rules\<close>).
  \<^item> \<open>Game\<close>: the actions of \<open>src/main.rs\<close> on one player: \<open>dig\<close> and its event chain,
    the sale (\<open>sell_all\<close>), one purchase choice (\<open>buy_item_choice\<close>), the roster order of
    \<open>login_menu\<close> (\<open>login_order\<close>, an insertion sort that computes what the stable
    \<open>slice::sort_by\<close> computes) and one registration line (\<open>register\<close>).
  \<^item> \<open>Persistence\<close>: \<open>update_inventory_file\<close>, the save of both files (\<open>save_roster\<close>)
    and the load at start-up (\<open>load_roster\<close>), with the save/load round trip and the
    prefix collision of the inventory search.
  \<^item> \<open>Session\<close>: the menus as a state machine. The state (\<open>game\<close>) is the roster, the
    menu the program is in (\<open>screen\<close>, with the selected player's index) and the two
    file contents; \<open>step\<close> consumes one input line (and, in the mine, the draws of one
    \<open>dig\<close>) and returns the next state or the panic; \<open>run\<close> folds it over a list of
    inputs; \<open>reachable\<close> is the inductive set of states reachable from \<open>start\<close>.
  \<^item> This theory: the property that spans the session and the files.

  \<^bold>\<open>Correspondence.\<close> A struct is a \<open>record\<close> with the source's field names; an enum a
  \<open>datatype\<close> with its constructors; a \<open>&mut self\<close> method a function returning the
  updated value; a method that can panic returns \<open>panic + _\<close>, one that returns
  \<open>Result<_, &str>\<close> returns \<open>string + _\<close> with the source's message. Fixed arrays are
  lists whose lengths (20 and 6) the invariant \<open>inv_wf\<close> fixes. Machine integers are
  \<open>u8\<close> and \<open>u32\<close> words; an addition that can overflow uses \<open>rust_add\<close>, which is what a
  debug build does (a release build would wrap). Randomness is an argument: a draw of
  \<open>gen_range(1..=100)\<close> is a \<open>u8\<close>, \<open>mine_ore\<close> takes the draws of each loop iteration and
  \<open>dig\<close> a \<open>dig_draws\<close> record; a probability is a count over the 100 outcomes of a draw
  (or the \<open>10^6\<close> triples of the three event draws of \<open>dig\<close>). Each menu loop of
  \<open>main.rs\<close> is one \<open>screen\<close>; a \<open>continue\<close> stays on it, a \<open>return\<close> moves to the caller's
  screen, and \<open>wait_for_enter\<close> is a screen that consumes one line. The menu loops do not
  terminate by design (they wait for input), so they are a step function and not a loop
  of the model; no fuel is needed: every definition is total.

  \<^bold>\<open>What is proved.\<close>
  \<^item> Odds: the ore of each pickaxe level (56/28/16, 53/36/11, 59/40/1 in percent, not the
    spec's 57/28/15, 54/36/10 and 60/40/0, because \<open>mine\<close> compares with a strict \<open><\<close>)
    and the events of \<open>dig\<close> (40, 12, 4.8 and 43.2 percent, not 40/20/10/30).
  \<^item> Functional behaviour: \<open>spend\<close>, \<open>take_damage\<close> (saturating), \<open>heal\<close> (capped at 100,
    panicking when the \<open>u8\<close> sum overflows), \<open>eat\<close>, the upgrade and its cost (no \<open>u32\<close>
    overflow), \<open>mine_ore\<close>, first-free-slot insertion and the silent no-op on a full
    container, the sale (and its panic when the balance overflows), both kinds of
    purchase, the roster order (a stable sort by descending balance), and registration
    (which accepts taken and empty names).
  \<^item> The session: every reachable state keeps the player invariant and a valid player
    index (rule induction over \<open>reachable\<close>); no step takes a pickaxe level out of the
    range 1 to 3 (the loader does not enforce that range); from every menu a fixed sequence of inputs
    (\<open>exit_inputs\<close>) returns to the title menu without a panic and saves; Continue and
    entry \<open>n\<close> play the \<open>n\<close>-th player of the sorted roster; the \<open>u8\<close> depth overflow is
    reachable by 256 inputs; entering the mine does not restore health, so a player with no
    health cannot dig.
  \<^item> Persistence: an inventory line reads back as the same multiset of ores (the
    spec's round trip); after every return to the title menu the files hold the roster, and a
    restart from them gives back every account and every player's ores (foods are lost,
    health and depth reset), when names are alphanumeric, not item tokens and
    prefix-free; without the last two conditions a player named after an ore gains that
    ore, and a player whose name is a prefix of an earlier one gets that player's ores.
  \<^item> \<open>Ord\<close> and \<open>Eq\<close> on \<open>Player\<close> are inconsistent for every pair of players with
    equal balances and different names.
  \<^item> The account reader, for every line: skips a line without three fields, defaults an
    unparsable balance to 0 and level to 1, and accepts any \<open>u8\<close> level.

  \<^bold>\<open>Not modelled.\<close> Printing to the terminal other than the slot listings, the
  prompt flushing, failures of \<open>read_line\<close>, \<open>File::create\<close> and \<open>write_all\<close>, the
  internals of the random generator (its results are arguments), and release-build
  wrapping arithmetic (the model follows the debug build, which panics).
\<close>


text \<open>C3: after any step that returns to the title menu, the two files hold the roster:
  restarting the program from them gives back every account exactly and every player's
  ores, with empty food slots, full health and depth 1, when every name is alphanumeric,
  is not an item token and is not a prefix of another.\<close>

theorem restart_after_save:
  assumes "step g line d = Inr g'" and "screen g' = Title"
    and "\<forall>p \<in> set (roster g'). player_inv p \<and> valid_name (username (account p))"
    and "prefix_free (map (\<lambda>p. username (account p)) (roster g'))"
  shows "start (account_txt g') (inventory_txt g') =
         Inr \<lparr>roster = map reloaded (roster g'), screen = Title,
              account_txt = account_txt g', inventory_txt = inventory_txt g'\<rparr>"
proof -
  have "load_roster (account_txt g') (inventory_txt g') = Inr (map reloaded (roster g'))"
    using step_title_saves [OF assms(1,2)] save_load_roster [of "roster g'"] assms(3,4) by simp
  then show ?thesis by (simp add: start_def)
qed

theorem restart_after_save_witness:
  "start (account_txt (back_to_title \<lparr>roster = [new_player create_empty (new_account ''ann'')],
            screen = Registered, account_txt = None, inventory_txt = None\<rparr>))
         (inventory_txt (back_to_title \<lparr>roster = [new_player create_empty (new_account ''ann'')],
            screen = Registered, account_txt = None, inventory_txt = None\<rparr>)) =
   Inr \<lparr>roster = [new_player create_empty (new_account ''ann'')], screen = Title,
        account_txt = account_txt (back_to_title \<lparr>roster = [new_player create_empty (new_account ''ann'')],
            screen = Registered, account_txt = None, inventory_txt = None\<rparr>),
        inventory_txt = inventory_txt (back_to_title \<lparr>roster = [new_player create_empty (new_account ''ann'')],
            screen = Registered, account_txt = None, inventory_txt = None\<rparr>)\<rparr>"
proof -
  let ?g = "\<lparr>roster = [new_player create_empty (new_account ''ann'')], screen = Registered,
             account_txt = None, inventory_txt = None\<rparr>"
  have "step ?g [] \<lparr>event1 = 1, event2 = 1, event3 = 1, ore_roll = \<lambda>_. (False, 1)\<rparr> = Inr (back_to_title ?g)"
    by simp
  moreover have "player_inv (new_player create_empty (new_account ''ann''))"
    by (simp add: player_inv_new)
  moreover have "valid_name ''ann''"
    by (simp add: valid_name_def is_alphanumeric_string_def is_alphanumeric_def
        food_from_string_def ore_from_string_def)
  moreover have "reloaded (new_player create_empty (new_account ''ann'')) = new_player create_empty (new_account ''ann'')"
    by (simp add: reloaded_def new_player_def create_empty_def)
  ultimately show ?thesis
    using restart_after_save [of ?g "[]" "\<lparr>event1 = 1, event2 = 1, event3 = 1, ore_roll = \<lambda>_. (False, 1)\<rparr>"
        "back_to_title ?g"]
    by (simp add: back_to_title_def new_account_def new_player_def prefix_free_def)
qed

end
